theory Spec2Isabelle
  imports Complex_Main
begin

section \<open>JavaScript values\<close>

text \<open>
  The checker works on loosely typed JavaScript data. A value is a primitive or an
  object; plain objects, arrays, functions and Error objects all carry a list of own
  named properties, kept in enumeration order (the order of \<^verbatim>\<open>for (key in obj)\<close>).
  An Error object keeps its text under the property \<^verbatim>\<open>message\<close>. A function is
  known by a number; what it does when called is given by the host (below).

  Scope of the model: values are trees (no object is reachable along two paths, and
  there are no cycles), property names are not names of members of
  \<^verbatim>\<open>Object.prototype\<close>, and there are no getters. Numbers are exact rationals
  with NaN and the two infinities standing for IEEE doubles (no rounding, and zero has
  no sign).
\<close>

datatype number = NaN | PosInf | NegInf | Fin rat

datatype jsval =
    VUndefined
  | VNull
  | VBool bool
  | VNum number
  | VStr string
  | VObj "(string \<times> jsval) list"
  | VArr "jsval list" "(string \<times> jsval) list"
  | VFun nat "(string \<times> jsval) list"
  | VErr "(string \<times> jsval) list"

text \<open>
  How a call ends: it returns, or an exception escapes it. A loop body has a third way
  to end, going on with the next round.
\<close>

datatype 'a completion = Normal 'a | Abrupt jsval

datatype 'a flow = Next 'a | Return jsval | Throw jsval

text \<open>
  The host: the built-ins of the language and of the \<^verbatim>\<open>tipe\<close> and
  \<^verbatim>\<open>util\<close> modules that the checker calls but does not define, and the behaviour of
  the user's validator functions. Validators are taken to be free of side effects on
  the values they receive.
\<close>

record host =
  parseFloat :: "string \<Rightarrow> number"
  parseInt :: "string \<Rightarrow> number"
  tipe_truthy :: "jsval \<Rightarrow> bool"
  tipe_isScalar :: "jsval \<Rightarrow> bool"
  numberToString :: "number \<Rightarrow> string"
  functionToString :: "nat \<Rightarrow> string"
  jsonRoundTrip :: "jsval \<Rightarrow> jsval completion"
  inspect :: "jsval \<Rightarrow> string"
  call :: "nat \<Rightarrow> jsval \<Rightarrow> jsval list \<Rightarrow> jsval completion"

text \<open>
  Modelled from the spec: the type classifier \<^verbatim>\<open>tipe\<close> (an npm module, not part
  of the sources). It maps a value to its tag; \<^verbatim>\<open>tipe.object(v)\<close>,
  \<^verbatim>\<open>tipe.isObject(v)\<close> and their like compare that tag with their name.
\<close>

fun tipe :: "jsval \<Rightarrow> string" where
  "tipe VUndefined = ''undefined''"
| "tipe VNull = ''null''"
| "tipe (VBool b) = ''boolean''"
| "tipe (VNum n) = ''number''"
| "tipe (VStr s) = ''string''"
| "tipe (VObj ps) = ''object''"
| "tipe (VArr xs ps) = ''array''"
| "tipe (VFun f ps) = ''function''"
| "tipe (VErr ps) = ''error''"

text \<open>JavaScript's ToBoolean, the test behind \<^verbatim>\<open>if (x)\<close>, \<^verbatim>\<open>!x\<close> and \<^verbatim>\<open>x || y\<close>.\<close>

fun truthy :: "jsval \<Rightarrow> bool" where
  "truthy VUndefined = False"
| "truthy VNull = False"
| "truthy (VBool b) = b"
| "truthy (VNum n) = (n \<noteq> NaN \<and> n \<noteq> Fin 0)"
| "truthy (VStr s) = (s \<noteq> [])"
| "truthy v = True"

definition nullish :: "jsval \<Rightarrow> bool" where
  "nullish v = (v = VUndefined \<or> v = VNull)"

text \<open>
  Own properties. Reading a property of a primitive gives undefined, and writing one
  is ignored (the sources are not in strict mode); both throw a TypeError on null and
  undefined, which the callers below check for where it can happen. Properties are
  enumerated in the order in which they were created, as JavaScript does for names
  that are not array indices; names that are (\<^verbatim>\<open>"0"\<close>, \<^verbatim>\<open>"17"\<close>), which JavaScript
  enumerates first and in numeric order, are outside the model.
\<close>

definition hasProps :: "jsval \<Rightarrow> bool" where
  "hasProps v = (tipe v = ''object'' \<or> tipe v = ''array'' \<or> tipe v = ''function'' \<or> tipe v = ''error'')"

fun props :: "jsval \<Rightarrow> (string \<times> jsval) list" where
  "props (VObj ps) = ps"
| "props (VArr xs ps) = ps"
| "props (VFun f ps) = ps"
| "props (VErr ps) = ps"
| "props v = []"

definition getProp :: "jsval \<Rightarrow> string \<Rightarrow> jsval" where
  "getProp v k = (case map_of (props v) k of Some x \<Rightarrow> x | None \<Rightarrow> VUndefined)"

definition keys :: "jsval \<Rightarrow> string list" where
  "keys v = map fst (props v)"

fun assign :: "(string \<times> jsval) list \<Rightarrow> string \<Rightarrow> jsval \<Rightarrow> (string \<times> jsval) list" where
  "assign [] k x = [(k, x)]"
| "assign ((k', y) # ps) k x = (if k' = k then (k, x) # ps else (k', y) # assign ps k x)"

fun setProp :: "jsval \<Rightarrow> string \<Rightarrow> jsval \<Rightarrow> jsval" where
  "setProp (VObj ps) k x = VObj (assign ps k x)"
| "setProp (VArr xs ps) k x = VArr xs (assign ps k x)"
| "setProp (VFun f ps) k x = VFun f (assign ps k x)"
| "setProp (VErr ps) k x = VErr (assign ps k x)"
| "setProp v k x = v"

fun delProp :: "jsval \<Rightarrow> string \<Rightarrow> jsval" where
  "delProp (VObj ps) k = VObj (filter (\<lambda>p. fst p \<noteq> k) ps)"
| "delProp v k = v"

definition TypeError :: jsval where
  "TypeError = VErr [(''message'', VStr ''TypeError'')]"

text \<open>
  JavaScript's ToString, behind string concatenation and \<^verbatim>\<open>new Error(x)\<close>. A plain
  object prints as \<^verbatim>\<open>[object Object]\<close>, an array as its elements joined by commas.
\<close>

fun joinWith :: "string \<Rightarrow> string list \<Rightarrow> string" where
  "joinWith sep [] = []"
| "joinWith sep [s] = s"
| "joinWith sep (s # t # ss) = s @ sep @ joinWith sep (t # ss)"

fun toStr :: "host \<Rightarrow> jsval \<Rightarrow> string" where
  "toStr h VUndefined = ''undefined''"
| "toStr h VNull = ''null''"
| "toStr h (VBool b) = (if b then ''true'' else ''false'')"
| "toStr h (VNum n) = numberToString h n"
| "toStr h (VStr s) = s"
| "toStr h (VObj ps) = ''[object Object]''"
| "toStr h (VArr xs ps) =
     joinWith '','' (map (\<lambda>x. if x = VUndefined \<or> x = VNull then [] else toStr h x) xs)"
| "toStr h (VFun f ps) = functionToString h f"
| "toStr h (VErr ps) =
     (case map_of ps ''message'' of Some (VStr m) \<Rightarrow> (if m = [] then ''Error'' else ''Error: '' @ m)
      | _ \<Rightarrow> ''Error'')"

text \<open>\<^verbatim>\<open>===\<close> where one side is a primitive: never true of NaN, never true across types.\<close>

fun strictEq :: "jsval \<Rightarrow> jsval \<Rightarrow> bool" where
  "strictEq VUndefined VUndefined = True"
| "strictEq VNull VNull = True"
| "strictEq (VBool a) (VBool b) = (a = b)"
| "strictEq (VNum a) (VNum b) = (a \<noteq> NaN \<and> a = b)"
| "strictEq (VStr a) (VStr b) = (a = b)"
| "strictEq a b = False"

fun numAbs :: "number \<Rightarrow> number" where
  "numAbs NaN = NaN"
| "numAbs PosInf = PosInf"
| "numAbs NegInf = PosInf"
| "numAbs (Fin r) = Fin \<bar>r\<bar>"

fun numGreater :: "number \<Rightarrow> number \<Rightarrow> bool" where
  "numGreater NaN b = False"
| "numGreater a NaN = False"
| "numGreater PosInf b = (b \<noteq> PosInf)"
| "numGreater NegInf b = False"
| "numGreater (Fin r) PosInf = False"
| "numGreater (Fin r) NegInf = True"
| "numGreater (Fin r) (Fin q) = (q < r)"

text \<open>\<^verbatim>\<open>str.split(sep)\<close> for a one-character separator.\<close>

fun split :: "char \<Rightarrow> string \<Rightarrow> string list" where
  "split c [] = [[]]"
| "split c (x # xs) =
     (if x = c then [] # split c xs
      else (case split c xs of [] \<Rightarrow> [[x]] | w # ws \<Rightarrow> (x # w) # ws))"


section \<open>The checker of \<^verbatim>\<open>src/unnamed/part_000\<close>\<close>

text \<open>
  The functions keep their names in the source; \<^verbatim>\<open>_chk\<close> is written \<open>chk'\<close>.
  Every error the checker builds with \<^verbatim>\<open>fail\<close> also receives a property
  \<^verbatim>\<open>info\<close>, a snapshot of the arguments for diagnostics, and \<^verbatim>\<open>fail\<close> deletes
  \<^verbatim>\<open>rootValue\<close> from the options record it is shown. Neither is modelled: no
  decision of the checker reads \<^verbatim>\<open>info\<close>, and after a failure the options record
  is not read again, nor is the partly updated value.
\<close>

definition codeMap :: jsval where
  "codeMap = VObj
     [(''missingParam'', VStr ''Missing Required Parameter''),
      (''badParam'', VStr ''Unrecognized Parameter''),
      (''badType'', VStr ''Invalid Type''),
      (''badValue'', VStr ''Invalid Value''),
      (''badSchema'', VStr ''Invalid Schema'')]"

definition newError :: "host \<Rightarrow> jsval \<Rightarrow> jsval" where
  "newError h msg = VErr [(''message'', VStr (toStr h msg))]"

definition fail :: "host \<Rightarrow> jsval \<Rightarrow> jsval \<Rightarrow> jsval" where
  "fail h code msg =
     (let err = (if tipe msg = ''error'' then msg
                 else newError h (VStr (toStr h (getProp codeMap (toStr h code)) @ '': '' @ toStr h msg)))
      in setProp err ''code'' (if truthy (getProp err ''code'') then getProp err ''code'' else code))"

text \<open>Pipe-delimited enum: true if \<open>str\<close> is one of the members of \<open>strEnum\<close>.\<close>

definition match :: "jsval \<Rightarrow> jsval \<Rightarrow> bool" where
  "match str strEnum =
     (case strEnum of
        VStr e \<Rightarrow> list_ex (\<lambda>member. strictEq (VStr member) str) (split CHR ''|'' e)
      | _ \<Rightarrow> False)"

text \<open>
  \<^verbatim>\<open>clone\<close> copies through JSON only what \<^verbatim>\<open>tipe\<close> calls an object; every other
  value, arrays among them, is returned as it is. When JSON throws, the exception is
  the result.
\<close>

definition clone :: "host \<Rightarrow> jsval \<Rightarrow> jsval" where
  "clone h obj =
     (if tipe obj \<noteq> ''object'' then obj
      else (case jsonRoundTrip h obj of Normal clonedObj \<Rightarrow> clonedObj | Abrupt e \<Rightarrow> e))"

definition override :: "jsval \<Rightarrow> jsval \<Rightarrow> jsval" where
  "override obj1 obj2 =
     (if \<not> (tipe obj1 = ''object'' \<and> tipe obj2 = ''object'') then obj1
      else
        let newObj = foldl (\<lambda>acc key. setProp acc key (getProp obj1 key)) (VObj []) (keys obj1)
        in foldl (\<lambda>acc key.
                    if tipe (getProp obj1 key) = ''undefined'' then setProp acc key (getProp obj2 key)
                    else if tipe (getProp obj1 key) = tipe (getProp obj2 key)
                      then setProp acc key (getProp obj2 key)
                    else acc)
             newObj (keys obj2))"

definition coerceType :: "host \<Rightarrow> jsval \<Rightarrow> jsval \<Rightarrow> jsval \<Rightarrow> jsval" where
  "coerceType h v schema options =
     (if truthy (getProp options ''doNotCoerce'') then v
      else (case v of
        VStr s \<Rightarrow>
          if getProp schema ''type'' = VStr ''number'' then
            (let f = parseFloat h s;
                 i = parseInt h s;
                 v1 = (if numGreater (numAbs f) (numAbs i) then VNum f
                       else if truthy (VNum i) then VNum i
                       else v)
             in if strictEq v1 (VStr ''0'') then VNum (Fin 0) else v1)
          else if getProp schema ''type'' = VStr ''boolean'' then VBool (tipe_truthy h v)
          else v
      | _ \<Rightarrow> v))"

text \<open>
  Reading \<^verbatim>\<open>message\<close>: an Error object without a message of its own inherits the
  empty string from its prototype.
\<close>

definition readMessage :: "jsval \<Rightarrow> jsval" where
  "readMessage v =
     (if tipe v = ''error'' \<and> ''message'' \<notin> set (keys v) then VStr [] else getProp v ''message'')"

text \<open>
  A validator is called with the root value as \<^verbatim>\<open>this\<close>. What it throws is caught;
  the handler then writes \<^verbatim>\<open>message\<close> and \<^verbatim>\<open>code\<close> on the thrown value, which
  itself throws when that value is null or undefined. Calling what is not a function
  throws a TypeError inside the same handler.

  The model hands the validator the root value as it was when \<^verbatim>\<open>chk\<close> was
  entered. The code hands it the object itself, which the check updates in place: a
  validator that reads \<^verbatim>\<open>this\<close> or \<^verbatim>\<open>options.rootValue\<close> sees there the defaults
  and coercions written so far. The properties below that involve validators do not
  depend on what a validator reads.
\<close>

definition callValidator :: "host \<Rightarrow> jsval \<Rightarrow> jsval \<Rightarrow> jsval \<Rightarrow> jsval completion" where
  "callValidator h fn v options =
     (case fn of
        VFun f ps \<Rightarrow>
          (case call h f (getProp options ''rootValue'') [v, options] of
             Abrupt schemaErr \<Rightarrow>
               if nullish schemaErr then Abrupt TypeError
               else Normal
                 (setProp
                    (setProp schemaErr ''message''
                       (VStr (''Validator threw exception '' @ toStr h (readMessage schemaErr))))
                    ''code'' (VStr ''badSchema''))
           | Normal err \<Rightarrow>
               if truthy err then
                 (let err1 = (if tipe err \<noteq> ''error'' then newError h err else err)
                  in Normal (setProp err1 ''code''
                       (if truthy (getProp err1 ''code'') then getProp err1 ''code''
                        else VStr ''badValue'')))
               else Normal VNull)
      | _ \<Rightarrow>
          Normal
            (setProp
               (setProp TypeError ''message''
                  (VStr (''Validator threw exception '' @ toStr h (readMessage TypeError))))
               ''code'' (VStr ''badSchema'')))"

definition checkScalar :: "host \<Rightarrow> jsval \<Rightarrow> jsval \<Rightarrow> jsval \<Rightarrow> jsval completion" where
  "checkScalar h v schema options =
     (if tipe schema \<noteq> ''object'' \<or> tipe v = ''null'' \<or> tipe v = ''undefined'' then Normal v
      else
        let sv = getProp schema ''value'' in
        if tipe sv = ''undefined'' then Normal v
        else if tipe sv = ''function'' then
          (case callValidator h sv v options of
             Abrupt x \<Rightarrow> Abrupt x
           | Normal err \<Rightarrow>
               if truthy err then Normal (fail h (getProp err ''code'') err) else Normal v)
        else if tipe sv = ''string'' then
          (if \<not> match v sv
           then Normal (fail h (VStr ''badValue'')
                          (VStr (toStr h (getProp options ''key'') @ '': '' @ toStr h sv)))
           else Normal v)
        else if tipe sv = ''number'' \<or> tipe sv = ''boolean'' then
          (if \<not> strictEq sv v
           then Normal (fail h (VStr ''badValue'')
                          (VStr (toStr h (getProp options ''key'') @ '': '' @ toStr h sv)))
           else Normal v)
        else Normal (fail h (VStr ''badType'') sv))"


text \<open>
  The loops of \<^verbatim>\<open>checkobject\<close> that come before the descent. Each runs over the
  keys in enumeration order. Reading \<^verbatim>\<open>fields[key].default\<close> or
  \<^verbatim>\<open>fields[key].required\<close> throws when \<^verbatim>\<open>fields[key]\<close> is null or undefined.
\<close>

fun checkobject_strict :: "host \<Rightarrow> string list \<Rightarrow> jsval \<Rightarrow> unit flow" where
  "checkobject_strict h [] flds = Next ()"
| "checkobject_strict h (key # ks) flds =
     (if \<not> truthy (getProp flds key) then Return (fail h (VStr ''badParam'') (VStr key))
      else checkobject_strict h ks flds)"

fun checkobject_defaults :: "host \<Rightarrow> string list \<Rightarrow> jsval \<Rightarrow> jsval \<Rightarrow> jsval flow" where
  "checkobject_defaults h [] flds v = Next v"
| "checkobject_defaults h (key # ks) flds v =
     (if nullish (getProp flds key) then Throw TypeError
      else if tipe (getProp (getProp flds key) ''default'') \<noteq> ''undefined''
              \<and> tipe (getProp v key) = ''undefined'' then
        (let v1 = setProp v key (clone h (getProp (getProp flds key) ''default''))
         in if tipe (getProp v1 key) = ''error''
            then Return (fail h (VStr ''badSchema'')
                           (VStr ''Invalid default. Could not serialize as JSON.''))
            else checkobject_defaults h ks flds v1)
      else checkobject_defaults h ks flds v)"

fun checkobject_required :: "host \<Rightarrow> string list \<Rightarrow> jsval \<Rightarrow> jsval \<Rightarrow> unit flow" where
  "checkobject_required h [] flds v = Next ()"
| "checkobject_required h (key # ks) flds v =
     (if nullish (getProp flds key) then Throw TypeError
      else if truthy (getProp (getProp flds key) ''required'')
              \<and> (tipe (getProp v key) = ''undefined'' \<or> tipe (getProp v key) = ''null'')
        then Return (fail h (VStr ''missingParam'') (VStr key))
      else checkobject_required h ks flds v)"

definition resolveFields :: "jsval \<Rightarrow> jsval" where
  "resolveFields schema =
     (if strictEq (VStr ''object'') (getProp schema ''type'') \<and> tipe (getProp schema ''value'') = ''object''
      then getProp schema ''value'' else schema)"

text \<open>
  The debugging helper \<^verbatim>\<open>log\<close>, called with the arguments of \<^verbatim>\<open>_chk\<close>, deletes
  \<^verbatim>\<open>rootSchema\<close> and \<^verbatim>\<open>rootValue\<close> from the caller's options record before it
  prints. The printing is not modelled, the deletion is.
\<close>

definition logArguments :: "jsval \<Rightarrow> jsval" where
  "logArguments ops = (if tipe ops = ''object'' then delProp (delProp ops ''rootSchema'') ''rootValue'' else ops)"

text \<open>
  An array slot is not assigned by \<^verbatim>\<open>checkArray\<close>: after the element's check the
  slot holds what it held, which for an object or array is the same object in its new
  state and for a primitive the old primitive.
\<close>

definition inPlace :: "jsval \<Rightarrow> jsval \<Rightarrow> jsval" where
  "inPlace old new = (if tipe old = ''object'' \<or> tipe old = ''array'' then new else old)"

fun elements :: "jsval \<Rightarrow> jsval list" where
  "elements (VArr xs ps) = xs"
| "elements v = []"

fun setElement :: "jsval \<Rightarrow> nat \<Rightarrow> jsval \<Rightarrow> jsval" where
  "setElement (VArr xs ps) i x = VArr (xs[i := x]) ps"
| "setElement v i x = v"

definition element :: "jsval \<Rightarrow> nat \<Rightarrow> jsval" where
  "element v i = (if i < length (elements v) then elements v ! i else VUndefined)"

lemma size_map_of:
  "map_of ps k = Some x \<Longrightarrow> size x < Suc (size_list (size_prod (\<lambda>_. 0) size) ps)"
  by (induction ps) (auto split: if_splits)

lemma size_getProp:
  "tipe (getProp v k) = ''object'' \<Longrightarrow> size (getProp v k) < size v"
  by (cases v) (auto simp: getProp_def dest!: size_map_of split: option.splits)

lemma size_getProp_truthy:
  "truthy (getProp v k) \<Longrightarrow> size (getProp v k) < size v"
  by (cases v) (auto simp: getProp_def dest!: size_map_of split: option.splits)

lemma size_resolveFields: "size (resolveFields schema) \<le> size schema"
  using size_getProp [of schema "''value''"] by (auto simp: resolveFields_def)

text \<open>
  The worker and its two recursions. Each function returns what the source function
  returns together with the state of the options record it was given. The descent of
  \<^verbatim>\<open>checkobject\<close> and the loop of \<^verbatim>\<open>checkArray\<close> are functions of their own;
  the array loop counts down, \<^verbatim>\<open>for (var i = value.length; i--;)\<close>, so the round
  for \<open>Suc i\<close> checks element \<open>i\<close>.
\<close>

function chk' :: "host \<Rightarrow> jsval \<Rightarrow> jsval \<Rightarrow> jsval \<Rightarrow> (jsval \<times> jsval) completion"
  and checkobject :: "host \<Rightarrow> jsval \<Rightarrow> jsval \<Rightarrow> jsval \<Rightarrow> (jsval \<times> jsval) completion"
  and checkobject_descend ::
    "host \<Rightarrow> string list \<Rightarrow> jsval \<Rightarrow> jsval \<Rightarrow> jsval \<Rightarrow> (jsval \<times> jsval) completion"
  and checkArray :: "host \<Rightarrow> jsval \<Rightarrow> jsval \<Rightarrow> jsval \<Rightarrow> (jsval \<times> jsval) completion"
  and checkArray_loop ::
    "host \<Rightarrow> nat \<Rightarrow> jsval \<Rightarrow> jsval \<Rightarrow> jsval \<Rightarrow> (jsval \<times> jsval) completion"
where
  "chk' h v schema parentOptions =
     (if tipe schema \<noteq> ''object'' then Normal (v, parentOptions)
      else
        let options = override parentOptions schema;
            parentOptions1 = (if truthy (getProp options ''log'') then logArguments parentOptions
                              else parentOptions)
        in
        if \<not> truthy (getProp options ''ignoreRequired'') \<and> truthy (getProp schema ''required'')
           \<and> (tipe v = ''undefined'' \<or> tipe v = ''null'')
        then Normal (fail h (VStr ''missingParam'') (getProp options ''key''), parentOptions1)
        else
          let v1 = coerceType h v schema options in
          if tipe v1 \<noteq> ''undefined'' \<and> tipe (getProp schema ''type'') = ''string''
             \<and> \<not> match (VStr (tipe v1)) (getProp schema ''type'')
          then Normal (fail h (VStr ''badType'') (VStr (tipe v1)), parentOptions1)
          else
            (case (if tipe v1 = ''object'' then checkobject h v1 schema options
                   else if tipe v1 = ''array'' then checkArray h v1 schema options
                   else (case checkScalar h v1 schema options of
                           Abrupt x \<Rightarrow> Abrupt x
                         | Normal r \<Rightarrow> Normal (r, options))) of
               Abrupt x \<Rightarrow> Abrupt x
             | Normal (v2, options1) \<Rightarrow>
                 if tipe v2 = ''error'' then Normal (v2, parentOptions1)
                 else if tipe (getProp schema ''validate'') = ''function'' then
                   (case callValidator h (getProp schema ''validate'') v2 options1 of
                      Abrupt x \<Rightarrow> Abrupt x
                    | Normal err \<Rightarrow>
                        if truthy err then Normal (fail h (getProp err ''code'') err, parentOptions1)
                        else Normal (v2, parentOptions1))
                 else Normal (v2, parentOptions1)))"
| "checkobject h v schema options =
     (if tipe schema \<noteq> ''object'' then Normal (v, options)
      else
        let flds = resolveFields schema in
        case (if truthy (getProp options ''strict'') then checkobject_strict h (keys v) flds
              else Next ()) of
          Throw x \<Rightarrow> Abrupt x
        | Return e \<Rightarrow> Normal (e, options)
        | Next u \<Rightarrow>
           (case (if \<not> truthy (getProp options ''ignoreDefaults'')
                  then checkobject_defaults h (keys flds) flds v else Next v) of
              Throw x \<Rightarrow> Abrupt x
            | Return e \<Rightarrow> Normal (e, options)
            | Next v1 \<Rightarrow>
               (case (if \<not> truthy (getProp options ''ignoreRequired'')
                      then checkobject_required h (keys flds) flds v1 else Next ()) of
                  Throw x \<Rightarrow> Abrupt x
                | Return e \<Rightarrow> Normal (e, options)
                | Next u \<Rightarrow> checkobject_descend h (keys v1) flds v1 options)))"
| "checkobject_descend h [] flds v options = Normal (v, options)"
| "checkobject_descend h (key # ks) flds v options =
     (if tipe (getProp flds key) = ''object'' then
        (let options1 = setProp options ''key'' (VStr key) in
         case chk' h (getProp v key) (getProp flds key) options1 of
           Abrupt x \<Rightarrow> Abrupt x
         | Normal (r, options2) \<Rightarrow>
             if tipe r = ''error'' then Normal (r, options2)
             else checkobject_descend h ks flds (setProp v key r) options2)
      else checkobject_descend h ks flds v options)"
| "checkArray h v schema options =
     (if tipe schema \<noteq> ''object'' then Normal (v, options)
      else if tipe (getProp schema ''value'') = ''object''
        then checkArray_loop h (length (elements v)) (getProp schema ''value'') v options
      else Normal (v, options))"
| "checkArray_loop h 0 elementSchema v options = Normal (v, options)"
| "checkArray_loop h (Suc i) elementSchema v options =
     (let options1 = setProp options ''key'' (VNum (Fin (of_nat i))) in
      case chk' h (element v i) elementSchema options1 of
        Abrupt x \<Rightarrow> Abrupt x
      | Normal (elm, options2) \<Rightarrow>
          if tipe elm = ''error'' then Normal (elm, options2)
          else checkArray_loop h i elementSchema (setElement v i (inPlace (element v i) elm)) options2)"
  by pat_completeness auto
termination
  apply (relation "inv_image (less_than <*lex*> less_than <*lex*> less_than)
    (\<lambda>x. case x of
       Inl (Inl (h, v, s, opts)) \<Rightarrow> (size s, 2::nat, 0::nat)
     | Inl (Inr (h, v, s, opts)) \<Rightarrow> (size s, 1, 0)
     | Inr (Inl (h, ks, flds, v, opts)) \<Rightarrow> (size flds, 0, length ks)
     | Inr (Inr (Inl (h, v, s, opts))) \<Rightarrow> (size s, 1, 0)
     | Inr (Inr (Inr (h, i, es, v, opts))) \<Rightarrow> (Suc (size es), 0, i))")
  apply (auto simp: size_getProp le_neq_implies_less [OF size_resolveFields]
               dest: size_getProp [THEN Suc_leI, THEN le_neq_implies_less])
  done


text \<open>
  The entry point. It returns an error or null; the model reports, with null, the
  state in which the call leaves the caller's value.
\<close>

datatype outcome = Success jsval | Failure jsval

definition defaultOptions :: jsval where
  "defaultOptions = VObj
     [(''ignoreDefaults'', VBool False),
      (''ignoreRequired'', VBool False),
      (''doNotCoerce'', VBool False),
      (''strict'', VBool False),
      (''log'', VBool False)]"

definition chk :: "host \<Rightarrow> jsval \<Rightarrow> jsval \<Rightarrow> jsval \<Rightarrow> outcome completion" where
  "chk h v schema userOptions =
     (if tipe schema \<noteq> ''object''
      then Normal (Failure (fail h (VStr ''badType'') (VStr ''schema object is required'')))
      else
        let options = override defaultOptions userOptions;
            options1 = setProp (setProp options ''rootValue'' v) ''rootSchema'' schema
        in case chk' h v schema options1 of
             Abrupt x \<Rightarrow> Abrupt x
           | Normal (err, options2) \<Rightarrow>
               if tipe err = ''error'' then Normal (Failure err)
               else Normal (Success (inPlace v err)))"

section \<open>The checker of \<^verbatim>\<open>src/chk.js\<close>\<close>

text \<open>
  The second source file holds another version of the checker, with the same entry
  point. Where a name of it is taken already, the model adds \<open>_chkjs\<close>. Its
  \<^verbatim>\<open>match\<close> is the function above, word for word, and its table of error texts is
  \<open>codeMap\<close>. All levels of a traversal share one options record, so every function
  returns its state. The model gives what each function returns; the defaults it
  writes into the caller's value are applied where the function reads them back and
  are not reported to the caller.
\<close>

definition orElse :: "jsval \<Rightarrow> jsval \<Rightarrow> jsval" where
  "orElse a b = (if truthy a then a else b)"

definition fail_chkjs :: "host \<Rightarrow> jsval \<Rightarrow> jsval \<Rightarrow> jsval \<Rightarrow> jsval" where
  "fail_chkjs h code msg info =
     (let msg1 = (if tipe msg = ''object'' then VStr (inspect h msg) else msg);
          msg2 = (if tipe info = ''object''
                  then VStr (toStr h msg1 @ [CHR 0x0A] @ inspect h info) else msg1)
      in setProp (newError h (VStr (toStr h (getProp codeMap (toStr h code)) @ '': '' @ toStr h msg2)))
           ''code'' code)"

text \<open>\<^verbatim>\<open>checkSchema\<close> returns null at its first statement; the rest of its body is dead.\<close>

definition checkSchema :: "jsval \<Rightarrow> jsval" where
  "checkSchema schema = VNull"

definition clone_chkjs :: "host \<Rightarrow> jsval \<Rightarrow> jsval" where
  "clone_chkjs h obj =
     (if tipe_isScalar h obj then obj
      else (case jsonRoundTrip h obj of Normal clonedObj \<Rightarrow> clonedObj | Abrupt e \<Rightarrow> VNull))"

definition coerce :: "host \<Rightarrow> jsval \<Rightarrow> jsval \<Rightarrow> jsval" where
  "coerce h v schema =
     (if getProp schema ''type'' = VStr ''number'' then
        (let f = parseFloat h (toStr h v);
             i = parseInt h (toStr h v);
             v1 = (if numGreater (numAbs f) (numAbs i) then VNum f
                   else if truthy (VNum i) then VNum i
                   else v)
         in if strictEq v1 (VStr ''0'') then VNum (Fin 0) else v1)
      else if getProp schema ''type'' = VStr ''boolean'' then VBool (tipe_truthy h v)
      else v)"

text \<open>
  The validator is called as a method of the schema, with the value, the root value
  and the key. No handler surrounds the call: what the validator throws escapes.
\<close>

definition checkScalar_chkjs :: "host \<Rightarrow> jsval \<Rightarrow> jsval \<Rightarrow> jsval \<Rightarrow> jsval completion" where
  "checkScalar_chkjs h v schema options =
     (let args = VObj [(''value'', v), (''schema'', schema), (''options'', options)] in
      if tipe schema \<noteq> ''object'' then Normal v
      else if tipe v = ''null'' \<or> tipe v = ''undefined'' then Normal v
      else
        let v1 = (if tipe v = ''string'' \<and> \<not> truthy (getProp options ''doNotCoerce'')
                  then coerce h v schema else v)
        in
        if truthy (getProp schema ''type'') \<and> tipe v1 \<noteq> ''undefined'' \<and> tipe v1 \<noteq> ''null''
           \<and> \<not> match (VStr (tipe v1)) (getProp schema ''type'')
        then Normal (fail_chkjs h (VStr ''badType'')
                       (VStr (toStr h (getProp options ''key'') @ '': '' @ toStr h (getProp schema ''type'')))
                       args)
        else
          let sv = getProp schema ''value'' in
          if tipe sv = ''undefined'' then Normal v1
          else if tipe sv = ''function'' then
            (if truthy (getProp options ''untrusted'')
             then Normal (fail_chkjs h (VStr ''badSchema'') (VStr ''Function validators are not allowed'') args)
             else (case sv of
                VFun f ps \<Rightarrow>
                  (case call h f schema [v1, getProp options ''rootValue'', getProp options ''key''] of
                     Abrupt x \<Rightarrow> Abrupt x
                   | Normal err \<Rightarrow>
                       if truthy err then
                         (let err1 = (if tipe err \<noteq> ''error'' then newError h err else err)
                          in Normal (setProp err1 ''code'' (orElse (getProp err1 ''code'') (VStr ''badValue''))))
                       else Normal v1)
              | _ \<Rightarrow> Abrupt TypeError))
          else if tipe sv = ''string'' then
            (if \<not> match v1 sv
             then Normal (fail_chkjs h (VStr ''badValue'')
                            (VStr (toStr h (getProp options ''key'') @ '': '' @ toStr h sv)) args)
             else Normal v1)
          else if tipe sv = ''number'' \<or> tipe sv = ''boolean'' then
            (if \<not> strictEq sv v1
             then Normal (fail_chkjs h (VStr ''badValue'')
                            (VStr (toStr h (getProp options ''key'') @ '': '' @ toStr h sv)) args)
             else Normal v1)
          else Normal (fail_chkjs h (VStr ''badType'') sv args))"

fun doCheck_strict :: "host \<Rightarrow> string list \<Rightarrow> jsval \<Rightarrow> jsval \<Rightarrow> unit flow" where
  "doCheck_strict h [] schema args = Next ()"
| "doCheck_strict h (key # ks) schema args =
     (if \<not> truthy (getProp schema key) then Return (fail_chkjs h (VStr ''badParam'') (VStr key) args)
      else doCheck_strict h ks schema args)"

text \<open>
  One loop sets a key's default and checks that it is not missing, key by key. Each
  half reads \<^verbatim>\<open>schema[key]\<close> only when its option does not switch it off.
\<close>

fun doCheck_defaults :: "host \<Rightarrow> string list \<Rightarrow> jsval \<Rightarrow> jsval \<Rightarrow> jsval \<Rightarrow> jsval \<Rightarrow> jsval flow" where
  "doCheck_defaults h [] schema v options args = Next v"
| "doCheck_defaults h (key # ks) schema v options args =
     (if \<not> truthy (getProp options ''ignoreDefaults'') \<and> nullish (getProp schema key) then Throw TypeError
      else
        let v1 = (if \<not> truthy (getProp options ''ignoreDefaults'')
                     \<and> tipe (getProp (getProp schema key) ''default'') \<noteq> ''undefined''
                     \<and> tipe (getProp v key) = ''undefined''
                  then setProp v key (clone_chkjs h (getProp (getProp schema key) ''default''))
                  else v)
        in
        if \<not> truthy (getProp options ''ignoreRequired'') \<and> nullish (getProp schema key) then Throw TypeError
        else if \<not> truthy (getProp options ''ignoreRequired'')
                \<and> truthy (getProp (getProp schema key) ''required'')
                \<and> (tipe (getProp v1 key) = ''undefined'' \<or> tipe (getProp v1 key) = ''null'')
          then Return (fail_chkjs h (VStr ''missingParam'') (VStr key) args)
        else doCheck_defaults h ks schema v1 options args)"

definition subSchemaOf :: "jsval \<Rightarrow> jsval" where
  "subSchemaOf s =
     (if tipe (getProp s ''value'') = ''object'' \<and> strictEq (VStr ''object'') (getProp s ''type'')
      then getProp s ''value'' else s)"

lemma size_subSchemaOf: "size (subSchemaOf s) \<le> size s"
  using size_getProp [of s "''value''"] by (auto simp: subSchemaOf_def)

lemma size_subSchemaOf_getProp:
  "truthy (getProp s k) \<Longrightarrow> size (subSchemaOf (getProp s k)) < size s"
  by (rule le_less_trans [OF size_subSchemaOf size_getProp_truthy])

text \<open>
  \<^verbatim>\<open>doCheck\<close> with its two recursions: the descent into the keys of an object and
  the \<^verbatim>\<open>forEach\<close> over an array. Both keep the result of the last nested call in
  \<^verbatim>\<open>err\<close> and go on to the next key or element whatever that result is (the
  \<^verbatim>\<open>return\<close> inside the \<^verbatim>\<open>forEach\<close> callback ends the callback only).
\<close>

function doCheck :: "host \<Rightarrow> jsval \<Rightarrow> jsval \<Rightarrow> jsval \<Rightarrow> (jsval \<times> jsval) completion"
  and doCheck_descend ::
    "host \<Rightarrow> string list \<Rightarrow> jsval \<Rightarrow> jsval \<Rightarrow> jsval \<Rightarrow> jsval \<Rightarrow> (jsval \<times> jsval) completion"
  and doCheck_forEach ::
    "host \<Rightarrow> jsval list \<Rightarrow> jsval \<Rightarrow> jsval \<Rightarrow> jsval \<Rightarrow> (jsval \<times> jsval) completion"
where
  "doCheck h v schema options0 =
     (let options1 = (if truthy options0 then options0 else VObj []);
          options = setProp options1 ''key'' (orElse (getProp options1 ''key'') (VStr []));
          args = VObj [(''value'', v), (''schema'', schema)]
      in
      if tipe schema \<noteq> ''object'' then Normal (VNull, options)
      else
        let v1 = (if \<not> truthy (getProp options ''ignoreDefaults'')
                     \<and> tipe (getProp schema ''default'') \<noteq> ''undefined''
                     \<and> tipe v = ''undefined''
                  then clone_chkjs h (getProp schema ''default'') else v)
        in
        if \<not> truthy (getProp options ''ignoreRequired'') \<and> truthy (getProp schema ''required'')
           \<and> (tipe v1 = ''undefined'' \<or> tipe v1 = ''null'')
        then Normal (fail_chkjs h (VStr ''missingParam'') (getProp options ''key'') args, options)
        else if truthy (getProp schema ''type'') \<and> \<not> match (VStr (tipe v1)) (getProp schema ''type'')
        then Normal (fail_chkjs h (VStr ''badType'') args VUndefined, options)
        else
          (case (if tipe v1 = ''object'' then
                   (let beStrict = (if tipe (getProp schema ''strict'') = ''boolean''
                                    then getProp schema ''strict'' else getProp options ''strict'')
                    in case (if truthy beStrict then doCheck_strict h (keys v1) schema args else Next ()) of
                         Throw x \<Rightarrow> Abrupt x
                       | Return e \<Rightarrow> Normal (e, options)
                       | Next u \<Rightarrow>
                          (case doCheck_defaults h (keys schema) schema v1 options args of
                             Throw x \<Rightarrow> Abrupt x
                           | Return e \<Rightarrow> Normal (e, options)
                           | Next v2 \<Rightarrow> doCheck_descend h (keys v2) schema v2 options VUndefined))
                 else if tipe v1 = ''array'' then
                   (if truthy (getProp schema ''value'')
                    then doCheck_forEach h (elements v1) (subSchemaOf (getProp schema ''value'')) options VUndefined
                    else Normal (VUndefined, options))
                 else
                   (case checkScalar_chkjs h v1 schema options of
                      Abrupt x \<Rightarrow> Abrupt x
                    | Normal r \<Rightarrow> Normal (if tipe r = ''error'' then r else VUndefined, options))) of
             Abrupt x \<Rightarrow> Abrupt x
           | Normal (err, options2) \<Rightarrow>
               Normal (if tipe err = ''error'' then err else VNull, options2)))"
| "doCheck_descend h [] schema v options err = Normal (err, options)"
| "doCheck_descend h (key # ks) schema v options err =
     (if truthy (getProp schema key) then
        (let options1 = setProp options ''key'' (VStr key) in
         case doCheck h (getProp v key) (subSchemaOf (getProp schema key)) options1 of
           Abrupt x \<Rightarrow> Abrupt x
         | Normal (err1, options2) \<Rightarrow> doCheck_descend h ks schema v options2 err1)
      else doCheck_descend h ks schema v options err)"
| "doCheck_forEach h [] subSchema options err = Normal (err, options)"
| "doCheck_forEach h (elm # elms) subSchema options err =
     (case doCheck h elm subSchema options of
        Abrupt x \<Rightarrow> Abrupt x
      | Normal (err1, options1) \<Rightarrow> doCheck_forEach h elms subSchema options1 err1)"
  by pat_completeness auto
termination
  apply (relation "inv_image (less_than <*lex*> less_than <*lex*> less_than)
    (\<lambda>x. case x of
       Inl (h, v, s, opts) \<Rightarrow> (size s, 1::nat, 0::nat)
     | Inr (Inl (h, ks, s, v, opts, err)) \<Rightarrow> (size s, 0, length ks)
     | Inr (Inr (h, elms, s, opts, err)) \<Rightarrow> (Suc (size s), 0, length elms))")
         apply (intro wf_inv_image wf_lex_prod wf_less_than)
        apply (simp_all (no_asm))
   apply (meson size_subSchemaOf_getProp Suc_lessI)
  apply (erule size_subSchemaOf_getProp)
  done

text \<open>
  The entry point configures the options: each flag that is not set becomes
  \<^verbatim>\<open>false\<close>, and the root value and schema are recorded.
\<close>

definition configure :: "jsval \<Rightarrow> jsval \<Rightarrow> jsval \<Rightarrow> jsval" where
  "configure v schema options0 =
     (let options1 = (if truthy options0 then options0 else VObj []);
          options2 = setProp options1 ''strict'' (orElse (getProp options1 ''strict'') (VBool False));
          options3 = setProp options2 ''ignoreDefaults'' (orElse (getProp options2 ''ignoreDefaults'') (VBool False));
          options4 = setProp options3 ''ignoreRequired'' (orElse (getProp options3 ''ignoreRequired'') (VBool False));
          options5 = setProp options4 ''doNotCoerce'' (orElse (getProp options4 ''doNotCoerce'') (VBool False));
          options6 = setProp options5 ''untrusted'' (orElse (getProp options5 ''untrusted'') (VBool False))
      in setProp (setProp options6 ''rootValue'' v) ''rootSchema'' schema)"

definition chk_chkjs :: "host \<Rightarrow> jsval \<Rightarrow> jsval \<Rightarrow> jsval \<Rightarrow> jsval completion" where
  "chk_chkjs h v schema options0 =
     (let err = checkSchema schema in
      if truthy err then Normal err
      else (case doCheck h v schema (configure v schema options0) of
              Abrupt x \<Rightarrow> Abrupt x
            | Normal (r, options8) \<Rightarrow> Normal r))"

section \<open>An example host\<close>

text \<open>
  The theorems below hold for every host. Closed examples need one: \<open>js_host\<close> gives
  the built-ins as ECMAScript defines them on the values of this model, for ASCII
  text. \<^verbatim>\<open>parseFloat\<close> reads the longest prefix that is a decimal literal (after
  leading blanks and a sign: digits, a fraction, an exponent, or \<^verbatim>\<open>Infinity\<close>);
  \<^verbatim>\<open>parseInt\<close> reads the longest prefix of digits, hexadecimal after
  \<^verbatim>\<open>0x\<close>. Both give NaN when that prefix is empty.
\<close>

definition isSpace :: "char \<Rightarrow> bool" where
  "isSpace c = (c \<in> set [CHR '' '', CHR 0x09, CHR 0x0A, CHR 0x0B, CHR 0x0C, CHR 0x0D])"

definition isDigit :: "char \<Rightarrow> bool" where
  "isDigit c = (48 \<le> (of_char c :: nat) \<and> (of_char c :: nat) \<le> 57)"

definition digitValue :: "char \<Rightarrow> nat" where
  "digitValue c = of_char c - 48"

definition isHexDigit :: "char \<Rightarrow> bool" where
  "isHexDigit c = (isDigit c \<or> (97 \<le> (of_char c :: nat) \<and> (of_char c :: nat) \<le> 102)
                    \<or> (65 \<le> (of_char c :: nat) \<and> (of_char c :: nat) \<le> 70))"

definition hexDigitValue :: "char \<Rightarrow> nat" where
  "hexDigitValue c =
     (if isDigit c then of_char c - 48
      else if 97 \<le> (of_char c :: nat) then of_char c - 87
      else of_char c - 55)"

definition digitsToNat :: "nat \<Rightarrow> (char \<Rightarrow> nat) \<Rightarrow> string \<Rightarrow> nat" where
  "digitsToNat radix val ds = foldl (\<lambda>n c. radix * n + val c) 0 ds"

definition signOf :: "string \<Rightarrow> bool \<times> string" where
  "signOf s =
     (case s of
        c # r \<Rightarrow> (if c = CHR ''-'' then (True, r) else if c = CHR ''+'' then (False, r) else (False, s))
      | [] \<Rightarrow> (False, s))"

definition exponentOf :: "string \<Rightarrow> int" where
  "exponentOf s =
     (case s of
        c # r \<Rightarrow>
          (if c = CHR ''e'' \<or> c = CHR ''E'' then
             (let (neg, ds) = signOf r; n = int (digitsToNat 10 digitValue (takeWhile isDigit ds))
              in if takeWhile isDigit ds = [] then 0 else if neg then - n else n)
           else 0)
      | [] \<Rightarrow> 0)"

definition scale10 :: "rat \<Rightarrow> int \<Rightarrow> rat" where
  "scale10 r e = (if 0 \<le> e then r * 10 ^ nat e else r / 10 ^ nat (- e))"

definition js_parseFloat :: "string \<Rightarrow> number" where
  "js_parseFloat s =
     (let (neg, u) = signOf (dropWhile isSpace s) in
      if take 8 u = ''Infinity'' then (if neg then NegInf else PosInf)
      else
        let ip = takeWhile isDigit u;
            r1 = dropWhile isDigit u;
            fp = (case r1 of c # r \<Rightarrow> (if c = CHR ''.'' then takeWhile isDigit r else []) | [] \<Rightarrow> []);
            r2 = (case r1 of c # r \<Rightarrow> (if c = CHR ''.'' then dropWhile isDigit r else r1) | [] \<Rightarrow> [])
        in
        if ip = [] \<and> fp = [] then NaN
        else
          let m = scale10 (of_nat (digitsToNat 10 digitValue (ip @ fp))) (exponentOf r2 - int (length fp))
          in Fin (if neg then - m else m))"

definition js_parseInt :: "string \<Rightarrow> number" where
  "js_parseInt s =
     (let (neg, u) = signOf (dropWhile isSpace s);
          hex = (take 2 u = ''0x'' \<or> take 2 u = ''0X'');
          ds = (if hex then takeWhile isHexDigit (drop 2 u) else takeWhile isDigit u);
          n = (if hex then digitsToNat 16 hexDigitValue ds else digitsToNat 10 digitValue ds)
      in if ds = [] then NaN else Fin (if neg then - of_nat n else of_nat n))"

text \<open>
  \<^verbatim>\<open>JSON.parse(JSON.stringify(v))\<close> on trees: properties holding undefined or a
  function are dropped, such array elements and the numbers JSON cannot write become
  null, an array keeps its elements only, and an Error object is written as a plain
  object of its enumerable properties (its \<^verbatim>\<open>message\<close> is not one). Undefined and
  functions have no JSON text at all, and parsing none throws.
\<close>

fun jsonValue :: "jsval \<Rightarrow> jsval" where
  "jsonValue (VNum n) = (case n of Fin r \<Rightarrow> VNum n | _ \<Rightarrow> VNull)"
| "jsonValue (VObj ps) =
     VObj (map (\<lambda>(k, x). (k, jsonValue x))
            (filter (\<lambda>(k, x). tipe x \<noteq> ''undefined'' \<and> tipe x \<noteq> ''function'') ps))"
| "jsonValue (VArr xs ps) =
     VArr (map (\<lambda>x. if tipe x = ''undefined'' \<or> tipe x = ''function'' then VNull else jsonValue x) xs) []"
| "jsonValue (VErr ps) =
     VObj (map (\<lambda>(k, x). (k, jsonValue x))
            (filter (\<lambda>(k, x). k \<noteq> ''message'' \<and> tipe x \<noteq> ''undefined'' \<and> tipe x \<noteq> ''function'') ps))"
| "jsonValue v = v"

definition SyntaxError :: jsval where
  "SyntaxError = VErr [(''message'', VStr ''SyntaxError'')]"

definition js_jsonRoundTrip :: "jsval \<Rightarrow> jsval completion" where
  "js_jsonRoundTrip v =
     (if tipe v = ''undefined'' \<or> tipe v = ''function'' then Abrupt SyntaxError
      else Normal (jsonValue v))"

text \<open>
  Numbers print in decimal: whole numbers digit by digit, others with the digits of
  their expansion, cut after twenty places.
\<close>

fun showNat :: "nat \<Rightarrow> string" where
  "showNat n = (if n < 10 then [char_of (48 + n)] else showNat (n div 10) @ [char_of (48 + n mod 10)])"

declare showNat.simps [simp del]

fun showFraction :: "nat \<Rightarrow> rat \<Rightarrow> string" where
  "showFraction 0 r = []"
| "showFraction (Suc k) r =
     (if r = 0 then []
      else char_of (48 + nat \<lfloor>r * 10\<rfloor>) # showFraction k (r * 10 - of_int \<lfloor>r * 10\<rfloor>))"

definition js_numberToString :: "number \<Rightarrow> string" where
  "js_numberToString n =
     (case n of
        NaN \<Rightarrow> ''NaN''
      | PosInf \<Rightarrow> ''Infinity''
      | NegInf \<Rightarrow> ''-Infinity''
      | Fin r \<Rightarrow>
          (let a = \<bar>r\<bar>; w = nat \<lfloor>a\<rfloor>; f = a - of_nat w
           in (if r < 0 then ''-'' else []) @ showNat w
              @ (if f = 0 then [] else ''.'' @ showFraction 20 f)))"

text \<open>
  The rest of the example host. The sources do not hold \<^verbatim>\<open>tipe\<close>. The example
  host takes its truthiness rule to be: the boolean true, the positive numbers, and
  the strings that read \<^verbatim>\<open>true\<close> or \<^verbatim>\<open>yes\<close> in any case or that \<^verbatim>\<open>parseInt\<close> reads
  as a positive number; and its scalars to be undefined, null, the booleans, the
  numbers and the strings. Functions and inspected values print as a fixed text. The
  behaviour of the validators is the host's parameter.
\<close>

definition toLower :: "char \<Rightarrow> char" where
  "toLower c =
     (if 65 \<le> (of_char c :: nat) \<and> (of_char c :: nat) \<le> 90 then char_of (of_char c + 32 :: nat) else c)"

definition js_tipe_truthy :: "jsval \<Rightarrow> bool" where
  "js_tipe_truthy v =
     (case v of
        VBool b \<Rightarrow> b
      | VNum n \<Rightarrow> numGreater n (Fin 0)
      | VStr s \<Rightarrow>
          map toLower s = ''true'' \<or> map toLower s = ''yes''
          \<or> numGreater (js_parseInt (map toLower s)) (Fin 0)
      | _ \<Rightarrow> False)"

definition js_tipe_isScalar :: "jsval \<Rightarrow> bool" where
  "js_tipe_isScalar v = (tipe v \<in> set [''undefined'', ''null'', ''boolean'', ''number'', ''string''])"

definition js_host :: "(nat \<Rightarrow> jsval \<Rightarrow> jsval list \<Rightarrow> jsval completion) \<Rightarrow> host" where
  "js_host validators =
     \<lparr> parseFloat = js_parseFloat,
       parseInt = js_parseInt,
       tipe_truthy = js_tipe_truthy,
       tipe_isScalar = js_tipe_isScalar,
       numberToString = js_numberToString,
       functionToString = (\<lambda>f. ''function () { ... }''),
       jsonRoundTrip = js_jsonRoundTrip,
       inspect = (\<lambda>v. ''{ ... }''),
       call = validators \<rparr>"

definition noValidators :: "nat \<Rightarrow> jsval \<Rightarrow> jsval list \<Rightarrow> jsval completion" where
  "noValidators f this args = Normal VUndefined"

section \<open>Properties\<close>

declare chk'.simps [simp del] checkobject.simps [simp del] checkArray.simps [simp del]
  doCheck.simps [simp del]

subsection \<open>Reading and writing properties\<close>

lemma map_of_assign: "map_of (assign ps k x) k' = (if k' = k then Some x else map_of ps k')"
  by (induction ps) auto

lemma getProp_setProp:
  "getProp (setProp v k x) k' = (if k' = k \<and> hasProps v then x else getProp v k')"
  by (cases v) (simp_all add: getProp_def hasProps_def map_of_assign)

lemma tipe_setProp [simp]: "tipe (setProp v k x) = tipe v"
  by (cases v) simp_all

lemma hasProps_setProp [simp]: "hasProps (setProp v k x) = hasProps v"
  by (simp add: hasProps_def)

lemma hasProps_object [simp]: "tipe v = ''object'' \<Longrightarrow> hasProps v"
  by (simp add: hasProps_def)

lemma getProp_absent: "k \<notin> set (keys v) \<Longrightarrow> getProp v k = VUndefined"
  by (simp add: getProp_def keys_def map_of_eq_None_iff [THEN iffD2])

lemma foldl_setProp_each:
  "hasProps acc \<Longrightarrow>
   hasProps (foldl (\<lambda>acc key. setProp acc key (g key)) acc ks) \<and>
   tipe (foldl (\<lambda>acc key. setProp acc key (g key)) acc ks) = tipe acc \<and>
   getProp (foldl (\<lambda>acc key. setProp acc key (g key)) acc ks) k =
     (if k \<in> set ks then g k else getProp acc k)"
  by (induction ks arbitrary: acc) (auto simp: getProp_setProp)

lemma foldl_setProp_some:
  "hasProps acc \<Longrightarrow>
   hasProps (foldl (\<lambda>acc key. if c key then setProp acc key (g key) else acc) acc ks) \<and>
   tipe (foldl (\<lambda>acc key. if c key then setProp acc key (g key) else acc) acc ks) = tipe acc \<and>
   getProp (foldl (\<lambda>acc key. if c key then setProp acc key (g key) else acc) acc ks) k =
     (if k \<in> set ks \<and> c k then g k else getProp acc k)"
  by (induction ks arbitrary: acc) (auto simp: getProp_setProp)

lemma override_copy:
  "getProp (foldl (\<lambda>acc key. setProp acc key (getProp obj1 key)) (VObj []) (keys obj1)) k = getProp obj1 k"
  using foldl_setProp_each [of "VObj []" "getProp obj1" "keys obj1" k]
  by (auto simp: hasProps_def getProp_absent) (simp add: getProp_def)

subsection \<open>The option merge\<close>

lemma override_object:
  assumes "tipe base = ''object''" and "tipe overrides = ''object''"
  shows "tipe (override base overrides) = ''object'' \<and>
    (\<forall>k. getProp (override base overrides) k =
      (if k \<in> set (keys overrides) then
         (if tipe (getProp base k) = ''undefined'' then getProp overrides k
          else if tipe (getProp base k) = tipe (getProp overrides k) then getProp overrides k
          else getProp base k)
       else getProp base k))"
proof -
  let ?copy = "foldl (\<lambda>acc key. setProp acc key (getProp base key)) (VObj []) (keys base)"
  let ?c = "\<lambda>key. tipe (getProp base key) = ''undefined''
                   \<or> tipe (getProp base key) = tipe (getProp overrides key)"
  have copy: "hasProps ?copy" "tipe ?copy = ''object''"
    using foldl_setProp_each [of "VObj []" "getProp base" "keys base"] by (simp_all add: hasProps_def)
  have eq: "override base overrides =
      foldl (\<lambda>acc key. if ?c key then setProp acc key (getProp overrides key) else acc) ?copy (keys overrides)"
  proof -
    have "(\<lambda>acc key. if tipe (getProp base key) = ''undefined'' then setProp acc key (getProp overrides key)
                      else if tipe (getProp base key) = tipe (getProp overrides key)
                        then setProp acc key (getProp overrides key)
                      else acc) =
          (\<lambda>acc key. if ?c key then setProp acc key (getProp overrides key) else acc)"
      by (intro ext) simp
    then show ?thesis using assms by (simp add: override_def Let_def)
  qed
  show ?thesis
    unfolding eq
    using foldl_setProp_some [OF copy(1), of ?c "getProp overrides" "keys overrides"]
    by (auto simp: copy override_copy)
qed

lemma getProp_override_other:
  "k \<notin> set (keys obj2) \<Longrightarrow> getProp (override obj1 obj2) k = getProp obj1 k"
proof (cases "tipe obj1 = ''object'' \<and> tipe obj2 = ''object''")
  case True
  then show "k \<notin> set (keys obj2) \<Longrightarrow> getProp (override obj1 obj2) k = getProp obj1 k"
    using override_object [of obj1 obj2] by simp
next
  case False
  then show ?thesis by (simp add: override_def)
qed

text \<open>
  Claim C6. For object-shaped records, \<^verbatim>\<open>override(base, overrides)\<close> is an object
  that reads, at every key, as follows. At a key of \<open>overrides\<close>: when \<open>base\<close> has
  nothing there (its value reads as undefined) the override's value; when \<open>base\<close> has
  a value, the override's value if both have the same type tag, and the value of
  \<open>base\<close> otherwise. At every other key: the value of \<open>base\<close>. The result is built
  from an empty object; \<open>base\<close> is only read.
\<close>

theorem override_merges:
  assumes "tipe base = ''object''" and "tipe overrides = ''object''"
  shows "tipe (override base overrides) = ''object'' \<and>
    (\<forall>k. getProp (override base overrides) k =
      (if k \<in> set (keys overrides) then
         (if tipe (getProp base k) = ''undefined'' then getProp overrides k
          else if tipe (getProp base k) = tipe (getProp overrides k) then getProp overrides k
          else getProp base k)
       else getProp base k))"
  using assms by (rule override_object)

text \<open>
  The default options merged with \<^verbatim>\<open>{strict: true, log: 'yes', untrusted: true}\<close>:
  \<^verbatim>\<open>strict\<close> is overridden, \<^verbatim>\<open>log\<close> keeps its boolean, \<^verbatim>\<open>untrusted\<close> is
  new and adopted, \<^verbatim>\<open>doNotCoerce\<close> is untouched.
\<close>

theorem override_merges_witness:
  "tipe defaultOptions = ''object'' \<and>
   tipe (VObj [(''strict'', VBool True), (''log'', VStr ''yes''), (''untrusted'', VBool True)]) = ''object'' \<and>
   tipe (override defaultOptions
          (VObj [(''strict'', VBool True), (''log'', VStr ''yes''), (''untrusted'', VBool True)])) = ''object'' \<and>
   getProp (override defaultOptions
          (VObj [(''strict'', VBool True), (''log'', VStr ''yes''), (''untrusted'', VBool True)])) ''strict'' = VBool True \<and>
   getProp (override defaultOptions
          (VObj [(''strict'', VBool True), (''log'', VStr ''yes''), (''untrusted'', VBool True)])) ''log'' = VBool False \<and>
   getProp (override defaultOptions
          (VObj [(''strict'', VBool True), (''log'', VStr ''yes''), (''untrusted'', VBool True)])) ''untrusted'' = VBool True \<and>
   getProp (override defaultOptions
          (VObj [(''strict'', VBool True), (''log'', VStr ''yes''), (''untrusted'', VBool True)])) ''doNotCoerce'' = VBool False"
proof -
  let ?o = "VObj [(''strict'', VBool True), (''log'', VStr ''yes''), (''untrusted'', VBool True)]"
  have b: "tipe defaultOptions = ''object''" by (simp add: defaultOptions_def)
  have o: "tipe ?o = ''object''" by simp
  note m = override_merges [OF b o]
  from m have t: "tipe (override defaultOptions ?o) = ''object''" by blast
  from m have g: "\<And>k. getProp (override defaultOptions ?o) k =
      (if k \<in> set (keys ?o) then
         (if tipe (getProp defaultOptions k) = ''undefined'' then getProp ?o k
          else if tipe (getProp defaultOptions k) = tipe (getProp ?o k) then getProp ?o k
          else getProp defaultOptions k)
       else getProp defaultOptions k)" by blast
  show ?thesis
    using b o t g [of "''strict''"] g [of "''log''"] g [of "''untrusted''"] g [of "''doNotCoerce''"]
    by (simp add: defaultOptions_def getProp_def keys_def)
qed

subsection \<open>The schema argument\<close>

text \<open>
  Claim C8, as amended. When the schema argument is not object-shaped, \<^verbatim>\<open>chk\<close> of
  \<^verbatim>\<open>part_000\<close> returns, for every value and all options, an error whose code is
  \<^verbatim>\<open>badType\<close> and whose message is
  \<^verbatim>\<open>Invalid Type: schema object is required\<close>.
\<close>

theorem chk_schema_not_object:
  "tipe schema \<noteq> ''object'' \<Longrightarrow>
   chk h v schema userOptions =
     Normal (Failure (VErr [(''message'', VStr ''Invalid Type: schema object is required''),
                            (''code'', VStr ''badType'')]))"
  by (simp add: chk_def fail_def newError_def getProp_def codeMap_def)

theorem chk_schema_not_object_witness:
  "tipe VNull \<noteq> ''object'' \<and>
   chk (js_host noValidators) (VStr ''abc'') VNull (VObj [(''strict'', VBool True)]) =
     Normal (Failure (VErr [(''message'', VStr ''Invalid Type: schema object is required''),
                            (''code'', VStr ''badType'')]))"
  using chk_schema_not_object [where schema = VNull and h = "js_host noValidators"
      and v = "VStr ''abc''" and userOptions = "VObj [(''strict'', VBool True)]"]
  by simp

text \<open>
  The claim as stated asks for a \<^verbatim>\<open>badSchema\<close> error with the message
  \<^verbatim>\<open>schema object is required\<close>. For the number 5 checked against the schema
  \<^verbatim>\<open>undefined\<close> the error has another code and a longer message.
\<close>

theorem chk_schema_not_object_counterexample:
  "chk (js_host noValidators) (VNum (Fin 5)) VUndefined VUndefined =
     Normal (Failure (VErr [(''message'', VStr ''Invalid Type: schema object is required''),
                            (''code'', VStr ''badType'')]))"
  by code_simp

subsection \<open>Absent values\<close>

text \<open>
  Claim C10, as amended. For every object-shaped schema that sets no required flag and
  has no function under \<^verbatim>\<open>validate\<close>, whatever its declared type and its other
  rules, checking the value \<^verbatim>\<open>undefined\<close> returns null and leaves the value as it
  is: the type check and the scalar rules are skipped for an undefined value.
\<close>

theorem chk_undefined_passes:
  assumes "tipe schema = ''object''"
    and "\<not> truthy (getProp schema ''required'')"
    and "tipe (getProp schema ''validate'') \<noteq> ''function''"
  shows "chk h VUndefined schema userOptions = Normal (Success VUndefined)"
  using assms
  by (simp add: chk_def chk'.simps coerceType_def checkScalar_def inPlace_def Let_def)

theorem chk_undefined_passes_witness:
  "tipe (VObj [(''type'', VStr ''string''), (''value'', VStr ''a|b'')]) = ''object'' \<and>
   \<not> truthy (getProp (VObj [(''type'', VStr ''string''), (''value'', VStr ''a|b'')]) ''required'') \<and>
   tipe (getProp (VObj [(''type'', VStr ''string''), (''value'', VStr ''a|b'')]) ''validate'') \<noteq> ''function'' \<and>
   chk (js_host noValidators) VUndefined (VObj [(''type'', VStr ''string''), (''value'', VStr ''a|b'')])
     VUndefined = Normal (Success VUndefined)"
  using chk_undefined_passes [where schema = "VObj [(''type'', VStr ''string''), (''value'', VStr ''a|b'')]"
      and h = "js_host noValidators" and userOptions = VUndefined]
  by (simp add: getProp_def)

text \<open>
  The final validator of a node is called for an undefined value too, so a schema with
  a declared type and no required flag can reject it: here the validator answers
  \<^verbatim>\<open>'no'\<close>.
\<close>

theorem chk_undefined_passes_counterexample:
  "chk (js_host (\<lambda>f this args. Normal (VStr ''no''))) VUndefined
      (VObj [(''type'', VStr ''string''), (''validate'', VFun 0 [])]) VUndefined =
     Normal (Failure (VErr [(''message'', VStr ''no''), (''code'', VStr ''badValue'')]))"
  by code_simp

subsection \<open>Validators under the option \<^verbatim>\<open>untrusted\<close>\<close>

text \<open>
  Only \<^verbatim>\<open>src/chk.js\<close> knows this option. Its functions do not depend on what the
  validators would do as long as the option is set; the first lemmas show this for
  the functions that never call one.
\<close>

lemma toStr_call [simp]: "toStr (h\<lparr>call := c\<rparr>) v = toStr h v"
proof (induction h v rule: toStr.induct)
  case (7 h xs ps)
  then have "map (\<lambda>x. if x = VUndefined \<or> x = VNull then [] else toStr (h\<lparr>call := c\<rparr>) x) xs =
             map (\<lambda>x. if x = VUndefined \<or> x = VNull then [] else toStr h x) xs"
    by (intro map_cong) auto
  then show ?case by (simp only: toStr.simps)
qed simp_all

lemma newError_call [simp]: "newError (h\<lparr>call := c\<rparr>) v = newError h v"
  by (simp add: newError_def)

lemma fail_chkjs_call [simp]: "fail_chkjs (h\<lparr>call := c\<rparr>) code msg info = fail_chkjs h code msg info"
  by (simp add: fail_chkjs_def)

lemma clone_chkjs_call [simp]: "clone_chkjs (h\<lparr>call := c\<rparr>) v = clone_chkjs h v"
  by (simp add: clone_chkjs_def)

lemma coerce_call [simp]: "coerce (h\<lparr>call := c\<rparr>) v s = coerce h v s"
  by (simp add: coerce_def)

lemma doCheck_strict_call [simp]: "doCheck_strict (h\<lparr>call := c\<rparr>) ks s a = doCheck_strict h ks s a"
  by (induction ks) simp_all

lemma doCheck_defaults_call [simp]:
  "doCheck_defaults (h\<lparr>call := c\<rparr>) ks s v opts a = doCheck_defaults h ks s v opts a"
  by (induction ks arbitrary: v) (simp_all add: Let_def split del: if_split cong: if_cong)

lemma checkScalar_chkjs_untrusted:
  "truthy (getProp options ''untrusted'') \<Longrightarrow>
   checkScalar_chkjs (h\<lparr>call := c\<rparr>) v s options = checkScalar_chkjs h v s options"
  by (simp add: checkScalar_chkjs_def Let_def)

lemma truthy_getProp: "truthy (getProp v k) \<Longrightarrow> hasProps v \<and> truthy v"
  by (cases v) (simp_all add: hasProps_def getProp_def)

lemma getProp_entry_options:
  "k \<noteq> ''key'' \<Longrightarrow>
   getProp (setProp (if truthy ops0 then ops0 else VObj []) ''key'' x) k = getProp ops0 k"
  by (cases ops0) (simp_all add: getProp_def map_of_assign)

text \<open>
  A call of \<^verbatim>\<open>doCheck\<close> writes no property of the options record but
  \<^verbatim>\<open>key\<close>. The proof goes by the size of the schema, with the two loops as
  lemmas that take the statement for every smaller schema.
\<close>

lemma doCheck_descend_frame:
  assumes sub: "\<And>v s ops r o'. size s < size schema \<Longrightarrow> doCheck h v s ops = Normal (r, o')
                  \<Longrightarrow> getProp o' k = getProp ops k"
    and k: "k \<noteq> ''key''"
  shows "doCheck_descend h ks schema v options err = Normal (r, o') \<Longrightarrow> getProp o' k = getProp options k"
proof (induction ks arbitrary: options err)
  case Nil
  then show ?case by simp
next
  case (Cons key ks)
  show ?case
  proof (cases "truthy (getProp schema key)")
    case False
    with Cons show ?thesis by simp
  next
    case True
    then have lt: "size (subSchemaOf (getProp schema key)) < size schema"
      by (rule size_subSchemaOf_getProp)
    from Cons.prems True obtain err1 o2 where
      d: "doCheck h (getProp v key) (subSchemaOf (getProp schema key)) (setProp options ''key'' (VStr key))
            = Normal (err1, o2)"
      and rest: "doCheck_descend h ks schema v o2 err1 = Normal (r, o')"
      by (auto simp: Let_def split: completion.splits)
    from sub [OF lt d] k have "getProp o2 k = getProp options k"
      by (simp add: getProp_setProp)
    with Cons.IH [OF rest] show ?thesis by simp
  qed
qed

lemma doCheck_forEach_frame:
  assumes sub: "\<And>v ops r o'. doCheck h v subSchema ops = Normal (r, o') \<Longrightarrow> getProp o' k = getProp ops k"
  shows "doCheck_forEach h elms subSchema options err = Normal (r, o') \<Longrightarrow> getProp o' k = getProp options k"
proof (induction elms arbitrary: options err)
  case Nil
  then show ?case by simp
next
  case (Cons elm elms)
  from Cons.prems obtain err1 o1 where
    d: "doCheck h elm subSchema options = Normal (err1, o1)"
    and rest: "doCheck_forEach h elms subSchema o1 err1 = Normal (r, o')"
    by (auto split: completion.splits)
  from sub [OF d] Cons.IH [OF rest] show ?case by simp
qed

lemma doCheck_frame_aux:
  "size schema < n \<Longrightarrow> k \<noteq> ''key'' \<Longrightarrow> doCheck h v schema options0 = Normal (r, o')
   \<Longrightarrow> getProp o' k = getProp options0 k"
proof (induction n arbitrary: v schema options0 r o')
  case 0
  then show ?case by simp
next
  case (Suc n)
  have sub: "\<And>v s ops r o'. size s < size schema \<Longrightarrow> doCheck h v s ops = Normal (r, o')
      \<Longrightarrow> getProp o' k = getProp ops k"
  proof -
    fix v s ops r o'
    assume lt: "size s < size schema" and d: "doCheck h v s ops = Normal (r, o')"
    from lt Suc.prems(1) have "size s < n" by simp
    from Suc.IH [OF this Suc.prems(2) d] show "getProp o' k = getProp ops k" .
  qed
  have descend: "\<And>ks v options err r o'. doCheck_descend h ks schema v options err = Normal (r, o')
      \<Longrightarrow> getProp o' k = getProp options k"
    by (rule doCheck_descend_frame [OF sub Suc.prems(2)])
  have forEach: "\<And>s elms options err r o'. size s < size schema \<Longrightarrow>
      doCheck_forEach h elms s options err = Normal (r, o') \<Longrightarrow> getProp o' k = getProp options k"
    by (rule doCheck_forEach_frame [OF sub])
  define options where "options =
     setProp (if truthy options0 then options0 else VObj []) ''key''
       (orElse (getProp (if truthy options0 then options0 else VObj []) ''key'') (VStr []))"
  define v1 where "v1 = (if \<not> truthy (getProp options ''ignoreDefaults'')
                     \<and> tipe (getProp schema ''default'') \<noteq> ''undefined''
                     \<and> tipe v = ''undefined''
                  then clone_chkjs h (getProp schema ''default'') else v)"
  define beStrict where "beStrict = (if tipe (getProp schema ''strict'') = ''boolean''
                                    then getProp schema ''strict'' else getProp options ''strict'')"
  define strictResult where "strictResult =
     (if truthy beStrict then doCheck_strict h (keys v1) schema (VObj [(''value'', v), (''schema'', schema)])
      else Next ())"
  have entry: "getProp options k = getProp options0 k"
    using Suc.prems(2) by (simp add: options_def getProp_entry_options)
  have eq: "doCheck h v schema options0 =
      (if tipe schema \<noteq> ''object'' then Normal (VNull, options)
       else if \<not> truthy (getProp options ''ignoreRequired'') \<and> truthy (getProp schema ''required'')
           \<and> (tipe v1 = ''undefined'' \<or> tipe v1 = ''null'')
        then Normal (fail_chkjs h (VStr ''missingParam'') (getProp options ''key'')
                       (VObj [(''value'', v), (''schema'', schema)]), options)
        else if truthy (getProp schema ''type'') \<and> \<not> match (VStr (tipe v1)) (getProp schema ''type'')
        then Normal (fail_chkjs h (VStr ''badType'') (VObj [(''value'', v), (''schema'', schema)]) VUndefined,
                     options)
        else
          (case (if tipe v1 = ''object'' then
                   (case strictResult of
                         Throw x \<Rightarrow> Abrupt x
                       | Return e \<Rightarrow> Normal (e, options)
                       | Next u \<Rightarrow>
                          (case doCheck_defaults h (keys schema) schema v1 options
                                  (VObj [(''value'', v), (''schema'', schema)]) of
                             Throw x \<Rightarrow> Abrupt x
                           | Return e \<Rightarrow> Normal (e, options)
                           | Next v2 \<Rightarrow> doCheck_descend h (keys v2) schema v2 options VUndefined))
                 else if tipe v1 = ''array'' then
                   (if truthy (getProp schema ''value'')
                    then doCheck_forEach h (elements v1) (subSchemaOf (getProp schema ''value'')) options VUndefined
                    else Normal (VUndefined, options))
                 else
                   (case checkScalar_chkjs h v1 schema options of
                      Abrupt x \<Rightarrow> Abrupt x
                    | Normal r \<Rightarrow> Normal (if tipe r = ''error'' then r else VUndefined, options))) of
             Abrupt x \<Rightarrow> Abrupt x
           | Normal (err, options2) \<Rightarrow>
               Normal (if tipe err = ''error'' then err else VNull, options2)))"
    unfolding options_def v1_def beStrict_def strictResult_def
    by (subst doCheck.simps) (simp only: Let_def)
  from Suc.prems(3) have "getProp o' k = getProp options k"
    unfolding eq
    by (auto split: if_splits completion.splits flow.splits
             dest: descend forEach [OF size_subSchemaOf_getProp])
  with entry show ?case by simp
qed

lemma doCheck_frame:
  "k \<noteq> ''key'' \<Longrightarrow> doCheck h v schema options0 = Normal (r, o') \<Longrightarrow> getProp o' k = getProp options0 k"
  using doCheck_frame_aux [of schema "Suc (size schema)"] by simp

text \<open>With the option set, \<^verbatim>\<open>doCheck\<close> gives the same result whatever the validators do.\<close>

lemma doCheck_descend_call:
  assumes sub: "\<And>v s ops. size s < size schema \<Longrightarrow> truthy (getProp ops ''untrusted'')
                  \<Longrightarrow> doCheck (h\<lparr>call := c\<rparr>) v s ops = doCheck h v s ops"
  shows "truthy (getProp options ''untrusted'') \<Longrightarrow>
         doCheck_descend (h\<lparr>call := c\<rparr>) ks schema v options err = doCheck_descend h ks schema v options err"
proof (induction ks arbitrary: options err)
  case Nil
  show ?case by simp
next
  case (Cons key ks)
  show ?case
  proof (cases "truthy (getProp schema key)")
    case False
    with Cons show ?thesis by simp
  next
    case True
    let ?o1 = "setProp options ''key'' (VStr key)"
    have u1: "truthy (getProp ?o1 ''untrusted'')"
      using Cons.prems by (simp add: getProp_setProp)
    have eq1: "doCheck (h\<lparr>call := c\<rparr>) (getProp v key) (subSchemaOf (getProp schema key)) ?o1
             = doCheck h (getProp v key) (subSchemaOf (getProp schema key)) ?o1"
      by (rule sub [OF size_subSchemaOf_getProp [OF True] u1])
    show ?thesis
    proof (cases "doCheck h (getProp v key) (subSchemaOf (getProp schema key)) ?o1")
      case (Abrupt x)
      with True eq1 show ?thesis by (simp add: Let_def)
    next
      case (Normal p)
      obtain err1 o2 where p: "p = (err1, o2)" by (cases p)
      from doCheck_frame [OF _ Normal [unfolded p], of "''untrusted''"] u1
      have "truthy (getProp o2 ''untrusted'')" by simp
      from Cons.IH [OF this] True eq1 Normal p show ?thesis by (simp add: Let_def)
    qed
  qed
qed

lemma doCheck_forEach_call:
  assumes sub: "\<And>v ops. truthy (getProp ops ''untrusted'')
                  \<Longrightarrow> doCheck (h\<lparr>call := c\<rparr>) v subSchema ops = doCheck h v subSchema ops"
  shows "truthy (getProp options ''untrusted'') \<Longrightarrow>
         doCheck_forEach (h\<lparr>call := c\<rparr>) elms subSchema options err
           = doCheck_forEach h elms subSchema options err"
proof (induction elms arbitrary: options err)
  case Nil
  show ?case by simp
next
  case (Cons elm elms)
  note eq1 = sub [OF Cons.prems, of elm]
  show ?case
  proof (cases "doCheck h elm subSchema options")
    case (Abrupt x)
    with eq1 show ?thesis by simp
  next
    case (Normal p)
    obtain err1 o1 where p: "p = (err1, o1)" by (cases p)
    from doCheck_frame [OF _ Normal [unfolded p], of "''untrusted''"] Cons.prems
    have "truthy (getProp o1 ''untrusted'')" by simp
    from Cons.IH [OF this] eq1 Normal p show ?thesis by simp
  qed
qed

lemma doCheck_call_aux:
  "size schema < n \<Longrightarrow> truthy (getProp options0 ''untrusted'') \<Longrightarrow>
   doCheck (h\<lparr>call := c\<rparr>) v schema options0 = doCheck h v schema options0"
proof (induction n arbitrary: v schema options0)
  case 0
  then show ?case by simp
next
  case (Suc n)
  have sub: "\<And>v s ops. size s < size schema \<Longrightarrow> truthy (getProp ops ''untrusted'')
      \<Longrightarrow> doCheck (h\<lparr>call := c\<rparr>) v s ops = doCheck h v s ops"
  proof -
    fix v s ops :: jsval
    assume lt: "size s < size schema" and u: "truthy (getProp ops ''untrusted'')"
    from lt Suc.prems(1) have "size s < n" by simp
    from Suc.IH [OF this u] show "doCheck (h\<lparr>call := c\<rparr>) v s ops = doCheck h v s ops" .
  qed
  have descend: "\<And>ks v options err. truthy (getProp options ''untrusted'') \<Longrightarrow>
      doCheck_descend (h\<lparr>call := c\<rparr>) ks schema v options err = doCheck_descend h ks schema v options err"
    by (rule doCheck_descend_call [OF sub])
  have forEach: "\<And>s elms options err. size s < size schema \<Longrightarrow> truthy (getProp options ''untrusted'') \<Longrightarrow>
      doCheck_forEach (h\<lparr>call := c\<rparr>) elms s options err = doCheck_forEach h elms s options err"
    by (rule doCheck_forEach_call [OF sub])
  have u: "truthy (getProp (setProp (if truthy options0 then options0 else VObj []) ''key'' x) ''untrusted'')"
    for x
    using Suc.prems(2) by (simp add: getProp_entry_options)
  show ?case
    apply (subst doCheck.simps)
    apply (subst doCheck.simps)
    apply (simp add: Let_def descend forEach u checkScalar_chkjs_untrusted size_subSchemaOf_getProp
        split del: if_split cong: if_cong flow.case_cong completion.case_cong)
    done
qed

lemma doCheck_call:
  "truthy (getProp options0 ''untrusted'') \<Longrightarrow>
   doCheck (h\<lparr>call := c\<rparr>) v schema options0 = doCheck h v schema options0"
  using doCheck_call_aux [of schema "Suc (size schema)"] by simp

lemma fail_chkjs_code:
  "tipe (fail_chkjs h code msg info) = ''error'' \<and> getProp (fail_chkjs h code msg info) ''code'' = code"
  by (simp add: fail_chkjs_def newError_def Let_def getProp_def)

lemma chk_chkjs_configure:
  "chk_chkjs h v schema options0 =
     (case doCheck h v schema (configure v schema options0) of
        Abrupt x \<Rightarrow> Abrupt x | Normal (r, options8) \<Rightarrow> Normal r)"
  by (simp add: chk_chkjs_def checkSchema_def)

lemma configure_untrusted:
  "truthy (getProp options0 ''untrusted'') \<Longrightarrow>
   truthy (getProp (configure v schema options0) ''untrusted'')"
  by (frule truthy_getProp) (simp add: configure_def Let_def getProp_setProp orElse_def)

text \<open>
  Claim C5, as amended. In \<^verbatim>\<open>src/chk.js\<close>, when the option \<^verbatim>\<open>untrusted\<close> is
  set, what \<^verbatim>\<open>chk\<close> returns is the same whatever the validator functions would do
  (they are not called, anywhere in the schema); and a value that is neither absent,
  null, an object nor an array, and that passes the type check of a schema whose
  \<^verbatim>\<open>value\<close> is a function, fails with an error whose code is \<^verbatim>\<open>badSchema\<close>.
\<close>

theorem untrusted_disables_validators:
  assumes "truthy (getProp options0 ''untrusted'')"
  shows "chk_chkjs (h\<lparr>call := c\<rparr>) v schema options0 = chk_chkjs h v schema options0 \<and>
    (tipe schema = ''object'' \<and> tipe (getProp schema ''value'') = ''function''
       \<and> tipe v \<notin> set [''undefined'', ''null'', ''object'', ''array'']
       \<and> (truthy (getProp schema ''type'') \<longrightarrow> match (VStr (tipe v)) (getProp schema ''type''))
     \<longrightarrow> (\<exists>e. chk_chkjs h v schema options0 = Normal e \<and> tipe e = ''error''
              \<and> getProp e ''code'' = VStr ''badSchema''))"
proof (intro conjI impI)
  show "chk_chkjs (h\<lparr>call := c\<rparr>) v schema options0 = chk_chkjs h v schema options0"
    by (simp add: chk_chkjs_configure doCheck_call [OF configure_untrusted [OF assms]])
next
  assume a: "tipe schema = ''object'' \<and> tipe (getProp schema ''value'') = ''function''
       \<and> tipe v \<notin> set [''undefined'', ''null'', ''object'', ''array'']
       \<and> (truthy (getProp schema ''type'') \<longrightarrow> match (VStr (tipe v)) (getProp schema ''type''))"
  let ?s = "configure v schema options0"
  let ?o = "setProp (if truthy ?s then ?s else VObj []) ''key''
              (orElse (getProp (if truthy ?s then ?s else VObj []) ''key'') (VStr []))"
  have u: "truthy (getProp ?o ''untrusted'')"
    using configure_untrusted [OF assms] by (simp add: getProp_entry_options)
  have nocoerce: "getProp schema ''type'' \<noteq> VStr ''number''" "getProp schema ''type'' \<noteq> VStr ''boolean''"
    if "tipe v = ''string''"
    using a that by (auto simp: match_def)
  have scalar: "\<exists>e. checkScalar_chkjs h v schema ?o = Normal e \<and> tipe e = ''error''
              \<and> getProp e ''code'' = VStr ''badSchema''"
    using a u nocoerce
    by (auto simp: checkScalar_chkjs_def Let_def coerce_def fail_chkjs_code)
  then obtain e where e: "checkScalar_chkjs h v schema ?o = Normal e" "tipe e = ''error''"
     "getProp e ''code'' = VStr ''badSchema''" by blast
  have "doCheck h v schema ?s = Normal (e, ?o)"
    using a e by (subst doCheck.simps) (auto simp: Let_def)
  then show "\<exists>e. chk_chkjs h v schema options0 = Normal e \<and> tipe e = ''error''
              \<and> getProp e ''code'' = VStr ''badSchema''"
    using e by (simp add: chk_chkjs_configure)
qed

text \<open>
  The number 5 against \<^verbatim>\<open>{value: f}\<close> with \<^verbatim>\<open>{untrusted: true}\<close>: the result
  with a validator that would throw is the result with one that would accept, the
  \<^verbatim>\<open>badSchema\<close> error.
\<close>

theorem untrusted_disables_validators_witness:
  "truthy (getProp (VObj [(''untrusted'', VBool True)]) ''untrusted'') \<and>
   chk_chkjs ((js_host noValidators)\<lparr>call := \<lambda>f this args. Abrupt VNull\<rparr>) (VNum (Fin 5))
       (VObj [(''value'', VFun 0 [])]) (VObj [(''untrusted'', VBool True)])
     = chk_chkjs (js_host noValidators) (VNum (Fin 5))
         (VObj [(''value'', VFun 0 [])]) (VObj [(''untrusted'', VBool True)]) \<and>
   chk_chkjs (js_host noValidators) (VNum (Fin 5))
       (VObj [(''value'', VFun 0 [])]) (VObj [(''untrusted'', VBool True)])
     = Normal (VErr [(''message'',
                      VStr (''Invalid Schema: Function validators are not allowed'' @ [CHR 0x0A] @ ''{ ... }'')),
                     (''code'', VStr ''badSchema'')])"
proof -
  have u: "truthy (getProp (VObj [(''untrusted'', VBool True)]) ''untrusted'')"
    by (simp add: getProp_def)
  have r: "chk_chkjs (js_host noValidators) (VNum (Fin 5))
       (VObj [(''value'', VFun 0 [])]) (VObj [(''untrusted'', VBool True)])
     = Normal (VErr [(''message'',
                      VStr (''Invalid Schema: Function validators are not allowed'' @ [CHR 0x0A] @ ''{ ... }'')),
                     (''code'', VStr ''badSchema'')])"
    by code_simp
  from untrusted_disables_validators [OF u, where h = "js_host noValidators"
      and c = "\<lambda>f this args. Abrupt VNull" and v = "VNum (Fin 5)"
      and schema = "VObj [(''value'', VFun 0 [])]"] u r
  show ?thesis by blast
qed

text \<open>
  The claim as stated fails twice. The checker of \<^verbatim>\<open>part_000\<close> does not know the
  option: it calls the validator, whose answer becomes a \<^verbatim>\<open>badValue\<close> error. And
  in \<^verbatim>\<open>src/chk.js\<close> a null value passes a schema with a function validator, so
  the node does not fail.
\<close>

theorem untrusted_disables_validators_counterexample:
  "chk (js_host (\<lambda>f this args. Normal (VStr ''called''))) (VNum (Fin 5))
       (VObj [(''value'', VFun 0 [])]) (VObj [(''untrusted'', VBool True)])
     = Normal (Failure (VErr [(''message'', VStr ''called''), (''code'', VStr ''badValue'')])) \<and>
   chk_chkjs (js_host noValidators) VNull
       (VObj [(''value'', VFun 0 [])]) (VObj [(''untrusted'', VBool True)])
     = Normal VNull"
  by code_simp

subsection \<open>Validators that throw\<close>










subsection \<open>Coercion of strings\<close>

lemma coerceType_string_number:
  assumes "\<not> truthy (getProp options ''doNotCoerce'')" and "getProp schema ''type'' = VStr ''number''"
  shows "coerceType h (VStr s) schema options =
     (if numGreater (numAbs (parseFloat h s)) (numAbs (parseInt h s)) then VNum (parseFloat h s)
      else if parseInt h s \<noteq> NaN \<and> parseInt h s \<noteq> Fin 0 then VNum (parseInt h s)
      else if s = ''0'' then VNum (Fin 0)
      else VStr s)"
  using assms by (simp add: coerceType_def Let_def)

lemma coerceType_string_boolean:
  assumes "\<not> truthy (getProp options ''doNotCoerce'')" and "getProp schema ''type'' = VStr ''boolean''"
  shows "coerceType h (VStr s) schema options = VBool (tipe_truthy h (VStr s))"
  using assms by (simp add: coerceType_def Let_def)

lemma fail_badType_string:
  "fail h (VStr ''badType'') (VStr m) = VErr [(''message'', VStr (''Invalid Type: '' @ m)), (''code'', VStr ''badType'')]"
  by (simp add: fail_def newError_def codeMap_def getProp_def)

lemma chk'_number_passes:
  assumes "coerceType h v (VObj [(''type'', VStr ''number'')]) (override options (VObj [(''type'', VStr ''number'')])) = c"
    and "tipe c = ''number''"
  shows "\<exists>o'. chk' h v (VObj [(''type'', VStr ''number'')]) options = Normal (c, o')"
  using assms by (simp add: chk'.simps Let_def getProp_def match_def checkScalar_def)

lemma chk'_number_fails:
  assumes "coerceType h v (VObj [(''type'', VStr ''number'')]) (override options (VObj [(''type'', VStr ''number'')])) = c"
    and "tipe c = ''string''"
  shows "\<exists>o'. chk' h v (VObj [(''type'', VStr ''number'')]) options =
     Normal (VErr [(''message'', VStr ''Invalid Type: string''), (''code'', VStr ''badType'')], o')"
  using assms by (simp add: chk'.simps Let_def getProp_def match_def fail_badType_string)

lemma chk'_boolean_passes:
  assumes "coerceType h v (VObj [(''type'', VStr ''boolean'')]) (override options (VObj [(''type'', VStr ''boolean'')])) = c"
    and "tipe c = ''boolean''"
  shows "\<exists>o'. chk' h v (VObj [(''type'', VStr ''boolean'')]) options = Normal (c, o')"
  using assms by (simp add: chk'.simps Let_def getProp_def match_def checkScalar_def)

text \<open>
  Claim C3, as amended. With \<^verbatim>\<open>doNotCoerce\<close> falsy, a string checked against the type
  \<^verbatim>\<open>number\<close> is parsed as a float and as an integer. The float is taken when its
  magnitude is strictly greater than the integer's; otherwise the integer is taken, but
  only when it is truthy (neither zero nor NaN); otherwise the string stays as it is,
  except the literal \<^verbatim>\<open>0\<close>, which becomes the number zero. A string left as a string
  then fails the type check. Against the type \<^verbatim>\<open>boolean\<close> the string becomes its
  truthiness under the classifier. So the worker \<^verbatim>\<open>_chk\<close> returns 42 for \<^verbatim>\<open>"42"\<close>,
  0 for \<^verbatim>\<open>"0"\<close> and true for \<^verbatim>\<open>"true"\<close>, on a host that parses them so.
\<close>

theorem coercion_of_strings:
  assumes nc: "\<not> truthy (getProp options ''doNotCoerce'')"
  shows "(getProp schema ''type'' = VStr ''number'' \<longrightarrow>
      coerceType h (VStr s) schema options =
        (if numGreater (numAbs (parseFloat h s)) (numAbs (parseInt h s)) then VNum (parseFloat h s)
         else if parseInt h s \<noteq> NaN \<and> parseInt h s \<noteq> Fin 0 then VNum (parseInt h s)
         else if s = ''0'' then VNum (Fin 0)
         else VStr s))
    \<and> (getProp schema ''type'' = VStr ''boolean'' \<longrightarrow>
      coerceType h (VStr s) schema options = VBool (tipe_truthy h (VStr s)))
    \<and> (\<exists>o'. chk' h (VStr s) (VObj [(''type'', VStr ''number'')]) options =
      Normal (if numGreater (numAbs (parseFloat h s)) (numAbs (parseInt h s)) then VNum (parseFloat h s)
              else if parseInt h s \<noteq> NaN \<and> parseInt h s \<noteq> Fin 0 then VNum (parseInt h s)
              else if s = ''0'' then VNum (Fin 0)
              else VErr [(''message'', VStr ''Invalid Type: string''), (''code'', VStr ''badType'')], o'))
    \<and> (parseFloat h ''42'' = Fin 42 \<and> parseInt h ''42'' = Fin 42 \<longrightarrow>
         (\<exists>o'. chk' h (VStr ''42'') (VObj [(''type'', VStr ''number'')]) options = Normal (VNum (Fin 42), o')))
    \<and> (parseFloat h ''0'' = Fin 0 \<and> parseInt h ''0'' = Fin 0 \<longrightarrow>
         (\<exists>o'. chk' h (VStr ''0'') (VObj [(''type'', VStr ''number'')]) options = Normal (VNum (Fin 0), o')))
    \<and> (tipe_truthy h (VStr ''true'') \<longrightarrow>
         (\<exists>o'. chk' h (VStr ''true'') (VObj [(''type'', VStr ''boolean'')]) options = Normal (VBool True, o')))"
proof -
  let ?N = "VObj [(''type'', VStr ''number'')]"
  let ?B = "VObj [(''type'', VStr ''boolean'')]"
  have nc': "\<not> truthy (getProp (override options (VObj [(''type'', VStr t)])) ''doNotCoerce'')" for t
    using nc by (simp add: getProp_override_other keys_def)
  have tN: "getProp ?N ''type'' = VStr ''number''" and tB: "getProp ?B ''type'' = VStr ''boolean''"
    by (simp_all add: getProp_def)
  note cN = coerceType_string_number [OF nc' tN, where h = h]
  note cB = coerceType_string_boolean [OF nc' tB, where h = h]
  have num: "\<exists>o'. chk' h (VStr s) ?N options =
      Normal (if numGreater (numAbs (parseFloat h s)) (numAbs (parseInt h s)) then VNum (parseFloat h s)
              else if parseInt h s \<noteq> NaN \<and> parseInt h s \<noteq> Fin 0 then VNum (parseInt h s)
              else if s = ''0'' then VNum (Fin 0)
              else VErr [(''message'', VStr ''Invalid Type: string''), (''code'', VStr ''badType'')], o')" for s
  proof (cases "tipe (coerceType h (VStr s) ?N (override options ?N)) = ''number''")
    case True
    from chk'_number_passes [OF refl True] True show ?thesis
      by (auto simp: cN split: if_splits)
  next
    case False
    then have "tipe (coerceType h (VStr s) ?N (override options ?N)) = ''string''"
      by (auto simp: cN split: if_splits)
    from chk'_number_fails [OF refl this] False show ?thesis
      by (auto simp: cN split: if_splits)
  qed
  have bool: "\<exists>o'. chk' h (VStr s) ?B options = Normal (VBool (tipe_truthy h (VStr s)), o')" for s
    using chk'_boolean_passes [OF refl, of h "VStr s" options] by (simp add: cB)
  have c1: "getProp schema ''type'' = VStr ''number'' \<longrightarrow>
      coerceType h (VStr s) schema options =
        (if numGreater (numAbs (parseFloat h s)) (numAbs (parseInt h s)) then VNum (parseFloat h s)
         else if parseInt h s \<noteq> NaN \<and> parseInt h s \<noteq> Fin 0 then VNum (parseInt h s)
         else if s = ''0'' then VNum (Fin 0)
         else VStr s)"
    using coerceType_string_number [OF nc] by blast
  have c2: "getProp schema ''type'' = VStr ''boolean'' \<longrightarrow>
      coerceType h (VStr s) schema options = VBool (tipe_truthy h (VStr s))"
    using coerceType_string_boolean [OF nc] by blast
  have e42: "parseFloat h ''42'' = Fin 42 \<and> parseInt h ''42'' = Fin 42 \<longrightarrow>
         (\<exists>o'. chk' h (VStr ''42'') ?N options = Normal (VNum (Fin 42), o'))"
    using num [of "''42''"] by auto
  have e0: "parseFloat h ''0'' = Fin 0 \<and> parseInt h ''0'' = Fin 0 \<longrightarrow>
         (\<exists>o'. chk' h (VStr ''0'') ?N options = Normal (VNum (Fin 0), o'))"
    using num [of "''0''"] by auto
  have et: "tipe_truthy h (VStr ''true'') \<longrightarrow>
         (\<exists>o'. chk' h (VStr ''true'') ?B options = Normal (VBool True, o'))"
    using bool [of "''true''"] by auto
  from c1 c2 num [of s] e42 e0 et show ?thesis by blast
qed

text \<open>
  On the example host: \<^verbatim>\<open>"42"\<close>, \<^verbatim>\<open>"0"\<close> and \<^verbatim>\<open>"3.5"\<close> against the type
  \<^verbatim>\<open>number\<close>, and \<^verbatim>\<open>"true"\<close> against the type \<^verbatim>\<open>boolean\<close>.
\<close>

theorem coercion_of_strings_witness:
  "\<not> truthy (getProp defaultOptions ''doNotCoerce'') \<and>
   coerceType (js_host noValidators) (VStr ''42'') (VObj [(''type'', VStr ''number'')]) defaultOptions
     = VNum (Fin 42) \<and>
   coerceType (js_host noValidators) (VStr ''3.5'') (VObj [(''type'', VStr ''number'')]) defaultOptions
     = VNum (Fin (7 / 2)) \<and>
   coerceType (js_host noValidators) (VStr ''true'') (VObj [(''type'', VStr ''boolean'')]) defaultOptions
     = VBool True \<and>
   (\<exists>o'. chk' (js_host noValidators) (VStr ''42'') (VObj [(''type'', VStr ''number'')]) defaultOptions
      = Normal (VNum (Fin 42), o')) \<and>
   (\<exists>o'. chk' (js_host noValidators) (VStr ''0'') (VObj [(''type'', VStr ''number'')]) defaultOptions
      = Normal (VNum (Fin 0), o')) \<and>
   (\<exists>o'. chk' (js_host noValidators) (VStr ''true'') (VObj [(''type'', VStr ''boolean'')]) defaultOptions
      = Normal (VBool True, o'))"
proof -
  let ?H = "js_host noValidators"
  let ?N = "VObj [(''type'', VStr ''number'')]"
  let ?B = "VObj [(''type'', VStr ''boolean'')]"
  have nc: "\<not> truthy (getProp defaultOptions ''doNotCoerce'')"
    by code_simp
  have t: "getProp ?N ''type'' = VStr ''number''" "getProp ?B ''type'' = VStr ''boolean''"
    by (simp_all add: getProp_def)
  have p: "parseFloat ?H ''42'' = Fin 42" "parseInt ?H ''42'' = Fin 42"
      "parseFloat ?H ''0'' = Fin 0" "parseInt ?H ''0'' = Fin 0"
      "parseFloat ?H ''3.5'' = Fin (7 / 2)" "parseInt ?H ''3.5'' = Fin 3"
      "tipe_truthy ?H (VStr ''true'')"
    by code_simp+
  have g: "numGreater (numAbs (Fin (7 / 2))) (numAbs (Fin 3))"
      "\<not> numGreater (numAbs (Fin 42)) (numAbs (Fin 42))"
    by code_simp+
  note a = coercion_of_strings [OF nc, where h = ?H and schema = ?N and s = "''42''"]
  note b = coercion_of_strings [OF nc, where h = ?H and schema = ?N and s = "''3.5''"]
  note c = coercion_of_strings [OF nc, where h = ?H and schema = ?B and s = "''true''"]
  from a t p g have a': "coerceType ?H (VStr ''42'') ?N defaultOptions = VNum (Fin 42)"
    by simp
  from b t p g have b': "coerceType ?H (VStr ''3.5'') ?N defaultOptions = VNum (Fin (7 / 2))"
    by simp
  from c t p have c': "coerceType ?H (VStr ''true'') ?B defaultOptions = VBool True"
    by simp
  from a p have d: "\<exists>o'. chk' ?H (VStr ''42'') ?N defaultOptions = Normal (VNum (Fin 42), o')"
    by blast
  from a p have e: "\<exists>o'. chk' ?H (VStr ''0'') ?N defaultOptions = Normal (VNum (Fin 0), o')"
    by blast
  from a p have f: "\<exists>o'. chk' ?H (VStr ''true'') ?B defaultOptions = Normal (VBool True, o')"
    by blast
  from nc a' b' c' d e f show ?thesis by blast
qed

text \<open>
  The claim as stated fails: the integer does not always win when the float's
  magnitude is not strictly greater. For \<^verbatim>\<open>"0.0"\<close> both parses give zero, the integer is
  falsy and the literal is not \<^verbatim>\<open>"0"\<close>: the string is left as it is and the type
  check rejects it, in both checkers.
\<close>

theorem coercion_of_strings_counterexample:
  "parseFloat (js_host noValidators) ''0.0'' = Fin 0 \<and>
   parseInt (js_host noValidators) ''0.0'' = Fin 0 \<and>
   coerceType (js_host noValidators) (VStr ''0.0'') (VObj [(''type'', VStr ''number'')]) defaultOptions
     = VStr ''0.0'' \<and>
   chk (js_host noValidators) (VStr ''0.0'') (VObj [(''type'', VStr ''number'')]) VUndefined
     = Normal (Failure (VErr [(''message'', VStr ''Invalid Type: string''), (''code'', VStr ''badType'')])) \<and>
   coerce (js_host noValidators) (VStr ''0.0'') (VObj [(''type'', VStr ''number'')]) = VStr ''0.0'' \<and>
   chk_chkjs (js_host noValidators) (VStr ''0.0'') (VObj [(''type'', VStr ''number'')]) VUndefined
     = Normal (VErr [(''message'', VStr ''Invalid Type: { ... }''), (''code'', VStr ''badType'')])"
  by code_simp

subsection \<open>The order of the array check\<close>

lemma element_array: "i < length xs \<Longrightarrow> element (VArr xs ps) i = xs ! i"
  by (simp add: element_def)

lemma checkArray_loop_error:
  assumes "checkArray_loop h n es (VArr xs ps) options = Normal (e, o')"
    and "tipe e = ''error''" and "n \<le> length xs"
  shows "\<exists>i<n.
      (\<exists>oi. chk' h (xs ! i) es (setProp oi ''key'' (VNum (Fin (of_nat i)))) = Normal (e, o'))
    \<and> (\<forall>j. i < j \<and> j < n \<longrightarrow>
          (\<exists>oj r o2. chk' h (xs ! j) es (setProp oj ''key'' (VNum (Fin (of_nat j)))) = Normal (r, o2)
             \<and> tipe r \<noteq> ''error''))
    \<and> (\<forall>ys. length ys = length xs \<and> (\<forall>j. i \<le> j \<and> j < n \<longrightarrow> ys ! j = xs ! j) \<longrightarrow>
          checkArray_loop h n es (VArr ys ps) options = Normal (e, o'))"
  using assms
proof (induction n arbitrary: xs options)
  case 0
  then show ?case by auto
next
  case (Suc n)
  let ?o1 = "setProp options ''key'' (VNum (Fin (of_nat n)))"
  from Suc.prems have n: "n < length xs" by simp
  from Suc.prems(1) n obtain elm o2 where c: "chk' h (xs ! n) es ?o1 = Normal (elm, o2)"
    by (auto simp: element_array Let_def split: completion.splits)
  show ?case
  proof (cases "tipe elm = ''error''")
    case True
    with Suc.prems(1) n c have eq: "elm = e" "o2 = o'"
      by (simp_all add: element_array)
    have "\<forall>ys. length ys = length xs \<and> (\<forall>j. n \<le> j \<and> j < Suc n \<longrightarrow> ys ! j = xs ! j) \<longrightarrow>
          checkArray_loop h (Suc n) es (VArr ys ps) options = Normal (e, o')"
      using c True n eq by (simp add: element_array)
    moreover have "\<exists>oi. chk' h (xs ! n) es (setProp oi ''key'' (VNum (Fin (of_nat n)))) = Normal (e, o')"
      using c eq by blast
    ultimately show ?thesis
      by (intro exI [of _ n]) auto
  next
    case False
    let ?xs = "xs[n := inPlace (xs ! n) elm]"
    from Suc.prems(1) n c False
    have r: "checkArray_loop h n es (VArr ?xs ps) o2 = Normal (e, o')"
      by (simp add: element_array)
    from n have "n \<le> length ?xs" by simp
    from Suc.IH [OF r Suc.prems(2) this] obtain i where i: "i < n"
      and fails: "\<exists>oi. chk' h (?xs ! i) es (setProp oi ''key'' (VNum (Fin (of_nat i)))) = Normal (e, o')"
      and passed: "\<forall>j. i < j \<and> j < n \<longrightarrow>
          (\<exists>oj r o2. chk' h (?xs ! j) es (setProp oj ''key'' (VNum (Fin (of_nat j)))) = Normal (r, o2)
             \<and> tipe r \<noteq> ''error'')"
      and rest: "\<forall>ys. length ys = length ?xs \<and> (\<forall>j. i \<le> j \<and> j < n \<longrightarrow> ys ! j = ?xs ! j) \<longrightarrow>
          checkArray_loop h n es (VArr ys ps) o2 = Normal (e, o')"
      by blast
    have a: "\<exists>oi. chk' h (xs ! i) es (setProp oi ''key'' (VNum (Fin (of_nat i)))) = Normal (e, o')"
      using fails i by simp
    have b: "\<exists>oj r o2. chk' h (xs ! j) es (setProp oj ''key'' (VNum (Fin (of_nat j)))) = Normal (r, o2)
             \<and> tipe r \<noteq> ''error''" if "i < j" "j < Suc n" for j
    proof (cases "j = n")
      case True
      with c False show ?thesis by blast
    next
      case False
      with that passed show ?thesis by simp
    qed
    have d: "checkArray_loop h (Suc n) es (VArr ys ps) options = Normal (e, o')"
      if l: "length ys = length xs" and same: "\<forall>j. i \<le> j \<and> j < Suc n \<longrightarrow> ys ! j = xs ! j" for ys
    proof -
      from same i have yn: "ys ! n = xs ! n" by simp
      have "checkArray_loop h n es (VArr (ys[n := inPlace (xs ! n) elm]) ps) o2 = Normal (e, o')"
        using rest l same by simp
      with c \<open>tipe elm \<noteq> ''error''\<close> n l yn show ?thesis
        by (simp add: element_array)
    qed
    from i a b d show ?thesis
      by (intro exI [of _ i]) auto
  qed
qed

lemma checkArray_loop_passes:
  assumes "checkArray_loop h n es (VArr xs ps) options = Normal (r, o')"
    and "tipe r \<noteq> ''error''" and "n \<le> length xs"
  shows "\<forall>j<n. \<exists>oj rj o2. chk' h (xs ! j) es (setProp oj ''key'' (VNum (Fin (of_nat j)))) = Normal (rj, o2)
             \<and> tipe rj \<noteq> ''error''"
  using assms
proof (induction n arbitrary: xs options)
  case 0
  then show ?case by simp
next
  case (Suc n)
  let ?o1 = "setProp options ''key'' (VNum (Fin (of_nat n)))"
  from Suc.prems have n: "n < length xs" by simp
  from Suc.prems(1) n obtain elm o2 where c: "chk' h (xs ! n) es ?o1 = Normal (elm, o2)"
    by (auto simp: element_array Let_def split: completion.splits)
  from Suc.prems(1,2) n c have ne: "tipe elm \<noteq> ''error''"
    by (auto simp: element_array)
  let ?xs = "xs[n := inPlace (xs ! n) elm]"
  from Suc.prems(1) n c ne
  have r: "checkArray_loop h n es (VArr ?xs ps) o2 = Normal (r, o')"
    by (simp add: element_array)
  from n have "n \<le> length ?xs" by simp
  from Suc.IH [OF r Suc.prems(2) this]
  have below: "\<forall>j<n. \<exists>oj rj o2. chk' h (?xs ! j) es (setProp oj ''key'' (VNum (Fin (of_nat j)))) = Normal (rj, o2)
             \<and> tipe rj \<noteq> ''error''"
    by simp
  show ?case
  proof (intro allI impI)
    fix j assume "j < Suc n"
    show "\<exists>oj rj o2. chk' h (xs ! j) es (setProp oj ''key'' (VNum (Fin (of_nat j)))) = Normal (rj, o2)
             \<and> tipe rj \<noteq> ''error''"
    proof (cases "j = n")
      case True
      with c ne show ?thesis by blast
    next
      case False
      with \<open>j < Suc n\<close> below show ?thesis by simp
    qed
  qed
qed

text \<open>
  Claim C4, as amended. With an element schema under \<^verbatim>\<open>schema.value\<close>, \<^verbatim>\<open>checkArray\<close>
  of \<^verbatim>\<open>part_000\<close> checks the elements from the last index down to the first, each
  under its index as the traversal key. When it returns an error, that error is the
  result of the check of some element \<open>i\<close>; every element after \<open>i\<close> was checked and
  passed; and the elements before \<open>i\<close> are not looked at: with any other elements in
  their place the result is the same. When it returns no error, every element passed.
\<close>

theorem checkArray_order:
  assumes "tipe schema = ''object''" and "tipe (getProp schema ''value'') = ''object''"
    and "checkArray h (VArr xs ps) schema options = Normal (e, o')"
  shows "(tipe e = ''error'' \<longrightarrow>
     (\<exists>i<length xs.
        (\<exists>oi. chk' h (xs ! i) (getProp schema ''value'') (setProp oi ''key'' (VNum (Fin (of_nat i))))
           = Normal (e, o'))
      \<and> (\<forall>j. i < j \<and> j < length xs \<longrightarrow>
          (\<exists>oj r o2. chk' h (xs ! j) (getProp schema ''value'') (setProp oj ''key'' (VNum (Fin (of_nat j))))
             = Normal (r, o2) \<and> tipe r \<noteq> ''error''))
      \<and> (\<forall>ys. length ys = length xs \<and> (\<forall>j. i \<le> j \<and> j < length xs \<longrightarrow> ys ! j = xs ! j) \<longrightarrow>
          checkArray h (VArr ys ps) schema options = Normal (e, o'))))
   \<and> (tipe e \<noteq> ''error'' \<longrightarrow>
     (\<forall>j<length xs. \<exists>oj r o2.
         chk' h (xs ! j) (getProp schema ''value'') (setProp oj ''key'' (VNum (Fin (of_nat j))))
           = Normal (r, o2) \<and> tipe r \<noteq> ''error''))"
proof (intro conjI impI)
  from assms have l: "checkArray_loop h (length xs) (getProp schema ''value'') (VArr xs ps) options = Normal (e, o')"
    by (simp add: checkArray.simps)
  {
    assume "tipe e = ''error''"
    from checkArray_loop_error [OF l this] assms(1,2)
    show "\<exists>i<length xs.
        (\<exists>oi. chk' h (xs ! i) (getProp schema ''value'') (setProp oi ''key'' (VNum (Fin (of_nat i))))
           = Normal (e, o'))
      \<and> (\<forall>j. i < j \<and> j < length xs \<longrightarrow>
          (\<exists>oj r o2. chk' h (xs ! j) (getProp schema ''value'') (setProp oj ''key'' (VNum (Fin (of_nat j))))
             = Normal (r, o2) \<and> tipe r \<noteq> ''error''))
      \<and> (\<forall>ys. length ys = length xs \<and> (\<forall>j. i \<le> j \<and> j < length xs \<longrightarrow> ys ! j = xs ! j) \<longrightarrow>
          checkArray h (VArr ys ps) schema options = Normal (e, o'))"
      by (simp add: checkArray.simps)
  }
  {
    assume "tipe e \<noteq> ''error''"
    from checkArray_loop_passes [OF l this]
    show "\<forall>j<length xs. \<exists>oj r o2.
         chk' h (xs ! j) (getProp schema ''value'') (setProp oj ''key'' (VNum (Fin (of_nat j))))
           = Normal (r, o2) \<and> tipe r \<noteq> ''error''"
      by simp
  }
qed

text \<open>
  The array \<^verbatim>\<open>["x", true]\<close> against elements of type \<^verbatim>\<open>number\<close>: both elements fail
  and the error is that of the second. The array \<^verbatim>\<open>[1, 2]\<close> passes and so does each
  element.
\<close>

theorem checkArray_order_witness:
  "tipe (VObj [(''type'', VStr ''array''), (''value'', VObj [(''type'', VStr ''number'')])]) = ''object'' \<and>
   tipe (getProp (VObj [(''type'', VStr ''array''), (''value'', VObj [(''type'', VStr ''number'')])]) ''value'')
     = ''object'' \<and>
   checkArray (js_host noValidators) (VArr [VStr ''x'', VBool True] [])
       (VObj [(''type'', VStr ''array''), (''value'', VObj [(''type'', VStr ''number'')])]) defaultOptions
     = Normal (VErr [(''message'', VStr ''Invalid Type: boolean''), (''code'', VStr ''badType'')],
               setProp defaultOptions ''key'' (VNum (Fin 1))) \<and>
   (\<exists>i<2. \<exists>oi.
      chk' (js_host noValidators) ([VStr ''x'', VBool True] ! i) (VObj [(''type'', VStr ''number'')])
          (setProp oi ''key'' (VNum (Fin (of_nat i))))
        = Normal (VErr [(''message'', VStr ''Invalid Type: boolean''), (''code'', VStr ''badType'')],
                  setProp defaultOptions ''key'' (VNum (Fin 1)))) \<and>
   checkArray (js_host noValidators) (VArr [VNum (Fin 1), VNum (Fin 2)] [])
       (VObj [(''type'', VStr ''array''), (''value'', VObj [(''type'', VStr ''number'')])]) defaultOptions
     = Normal (VArr [VNum (Fin 1), VNum (Fin 2)] [], setProp defaultOptions ''key'' (VNum (Fin 0))) \<and>
   (\<exists>oj r o2.
      chk' (js_host noValidators) (VNum (Fin 1)) (VObj [(''type'', VStr ''number'')])
          (setProp oj ''key'' (VNum (Fin 0)))
        = Normal (r, o2) \<and> tipe r \<noteq> ''error'') \<and>
   (\<exists>oj r o2.
      chk' (js_host noValidators) (VNum (Fin 2)) (VObj [(''type'', VStr ''number'')])
          (setProp oj ''key'' (VNum (Fin 1)))
        = Normal (r, o2) \<and> tipe r \<noteq> ''error'')"
proof -
  let ?H = "js_host noValidators"
  let ?S = "VObj [(''type'', VStr ''array''), (''value'', VObj [(''type'', VStr ''number'')])]"
  let ?E = "VErr [(''message'', VStr ''Invalid Type: boolean''), (''code'', VStr ''badType'')]"
  have s: "tipe ?S = ''object''" by simp
  have sv: "tipe (getProp ?S ''value'') = ''object''" by (simp add: getProp_def)
  have v: "getProp ?S ''value'' = VObj [(''type'', VStr ''number'')]" by (simp add: getProp_def)
  have a: "checkArray ?H (VArr [VStr ''x'', VBool True] []) ?S defaultOptions
      = Normal (?E, setProp defaultOptions ''key'' (VNum (Fin 1)))"
    by code_simp
  have b: "checkArray ?H (VArr [VNum (Fin 1), VNum (Fin 2)] []) ?S defaultOptions
      = Normal (VArr [VNum (Fin 1), VNum (Fin 2)] [], setProp defaultOptions ''key'' (VNum (Fin 0)))"
    by code_simp
  have e: "tipe ?E = ''error''" "tipe (VArr [VNum (Fin 1), VNum (Fin 2)] []) \<noteq> ''error''"
    by simp_all
  have l: "length [VStr ''x'', VBool True] = 2" "length [VNum (Fin 1), VNum (Fin 2)] = 2"
    by simp_all
  from checkArray_order [OF s sv a, unfolded v l] e(1)
  have fails: "\<exists>i<2. \<exists>oi.
      chk' ?H ([VStr ''x'', VBool True] ! i) (VObj [(''type'', VStr ''number'')])
          (setProp oi ''key'' (VNum (Fin (of_nat i))))
        = Normal (?E, setProp defaultOptions ''key'' (VNum (Fin 1)))"
    by blast
  from checkArray_order [OF s sv b, unfolded v l] e(2)
  have passes: "\<forall>j<2. \<exists>oj r o2.
      chk' ?H ([VNum (Fin 1), VNum (Fin 2)] ! j) (VObj [(''type'', VStr ''number'')])
          (setProp oj ''key'' (VNum (Fin (of_nat j))))
        = Normal (r, o2) \<and> tipe r \<noteq> ''error''"
    by blast
  from passes [rule_format, of 0]
  have p0: "\<exists>oj r o2.
      chk' ?H (VNum (Fin 1)) (VObj [(''type'', VStr ''number'')]) (setProp oj ''key'' (VNum (Fin 0)))
        = Normal (r, o2) \<and> tipe r \<noteq> ''error''"
    by simp
  from passes [rule_format, of 1]
  have p1: "\<exists>oj r o2.
      chk' ?H (VNum (Fin 2)) (VObj [(''type'', VStr ''number'')]) (setProp oj ''key'' (VNum (Fin 1)))
        = Normal (r, o2) \<and> tipe r \<noteq> ''error''"
    by simp
  from s sv a fails b p0 p1 show ?thesis by blast
qed

text \<open>
  The claim as stated fails. In \<^verbatim>\<open>["x", true]\<close> against elements of type
  \<^verbatim>\<open>number\<close> the earliest failing element in array order is \<^verbatim>\<open>"x"\<close>, whose error is
  \<^verbatim>\<open>Invalid Type: string\<close>; \<^verbatim>\<open>chk\<close> of \<^verbatim>\<open>part_000\<close> returns the error of the last
  element. The checker of \<^verbatim>\<open>src/chk.js\<close> goes in array order but does not stop: for
  \<^verbatim>\<open>["x", 1]\<close> the failure of the first element is overwritten by the success of the
  second.
\<close>

theorem checkArray_order_counterexample:
  "chk (js_host noValidators) (VArr [VStr ''x'', VBool True] [])
       (VObj [(''type'', VStr ''array''), (''value'', VObj [(''type'', VStr ''number'')])]) VUndefined
     = Normal (Failure (VErr [(''message'', VStr ''Invalid Type: boolean''), (''code'', VStr ''badType'')])) \<and>
   chk (js_host noValidators) (VArr [VStr ''x''] [])
       (VObj [(''type'', VStr ''array''), (''value'', VObj [(''type'', VStr ''number'')])]) VUndefined
     = Normal (Failure (VErr [(''message'', VStr ''Invalid Type: string''), (''code'', VStr ''badType'')])) \<and>
   chk (js_host noValidators) (VArr [VBool True] [])
       (VObj [(''type'', VStr ''array''), (''value'', VObj [(''type'', VStr ''number'')])]) VUndefined
     = Normal (Failure (VErr [(''message'', VStr ''Invalid Type: boolean''), (''code'', VStr ''badType'')])) \<and>
   chk_chkjs (js_host noValidators) (VArr [VStr ''x''] [])
       (VObj [(''type'', VStr ''array''), (''value'', VObj [(''type'', VStr ''number'')])]) VUndefined
     = Normal (VErr [(''message'', VStr ''Invalid Type: { ... }''), (''code'', VStr ''badType'')]) \<and>
   chk_chkjs (js_host noValidators) (VArr [VStr ''x'', VNum (Fin 1)] [])
       (VObj [(''type'', VStr ''array''), (''value'', VObj [(''type'', VStr ''number'')])]) VUndefined
     = Normal VNull"
  by code_simp

subsection \<open>Defaults and required fields of an object\<close>

lemma nullish_tipe: "nullish v = (tipe v = ''undefined'' \<or> tipe v = ''null'')"
  by (cases v) (simp_all add: nullish_def)

lemma checkobject_strict_passes:
  "\<forall>k\<in>set ks. truthy (getProp flds k) \<Longrightarrow> checkobject_strict h ks flds = Next ()"
  by (induction ks) simp_all

lemma checkobject_required_find:
  "\<forall>k\<in>set ks. \<not> nullish (getProp flds k) \<Longrightarrow>
   checkobject_required h ks flds v =
     (case find (\<lambda>k. truthy (getProp (getProp flds k) ''required'') \<and> nullish (getProp v k)) ks of
        None \<Rightarrow> Next ()
      | Some k \<Rightarrow> Return (fail h (VStr ''missingParam'') (VStr k)))"
  by (induction ks) (auto simp: nullish_tipe)

lemma checkobject_defaults_result:
  assumes "\<forall>k\<in>set ks. \<not> nullish (getProp flds k)" and "tipe v = ''object''"
  shows "if \<exists>k\<in>set ks. tipe (getProp (getProp flds k) ''default'') \<noteq> ''undefined''
              \<and> tipe (getProp v k) = ''undefined''
              \<and> tipe (clone h (getProp (getProp flds k) ''default'')) = ''error''
         then checkobject_defaults h ks flds v =
                Return (fail h (VStr ''badSchema'') (VStr ''Invalid default. Could not serialize as JSON.''))
         else \<exists>v'. checkobject_defaults h ks flds v = Next v' \<and> tipe v' = ''object''
                \<and> (\<forall>k. getProp v' k =
                      (if k \<in> set ks \<and> tipe (getProp (getProp flds k) ''default'') \<noteq> ''undefined''
                          \<and> tipe (getProp v k) = ''undefined''
                       then clone h (getProp (getProp flds k) ''default'') else getProp v k))"
  using assms
proof (induction ks arbitrary: v)
  case Nil
  then show ?case by simp
next
  case (Cons key ks)
  let ?d = "\<lambda>k. getProp (getProp flds k) ''default''"
  let ?c = "clone h (?d key)"
  from Cons.prems have nn: "\<not> nullish (getProp flds key)" and rest: "\<forall>k\<in>set ks. \<not> nullish (getProp flds k)"
    by simp_all
  from Cons.prems(2) have hp: "hasProps v" by (simp add: hasProps_def)
  show ?case
  proof (cases "tipe (?d key) \<noteq> ''undefined'' \<and> tipe (getProp v key) = ''undefined''")
    case False
    from Cons.IH [OF rest Cons.prems(2)] False nn show ?thesis
      by (auto split: if_splits)
  next
    case fill: True
    show ?thesis
    proof (cases "tipe ?c = ''error''")
      case True
      with fill nn hp show ?thesis by (auto simp: getProp_setProp)
    next
      case False
      let ?v1 = "setProp v key ?c"
      have t1: "tipe ?v1 = ''object''" using Cons.prems(2) by simp
      have g1: "getProp ?v1 k = (if k = key then ?c else getProp v k)" for k
        using hp by (simp add: getProp_setProp)
      have step: "checkobject_defaults h (key # ks) flds v = checkobject_defaults h ks flds ?v1"
        using fill False nn g1 by simp
      from Cons.IH [OF rest t1] False fill show ?thesis
        unfolding step g1 by (auto split: if_splits)
    qed
  qed
qed

text \<open>
  Claim C2, as amended. In \<^verbatim>\<open>checkobject\<close> of \<^verbatim>\<open>part_000\<close>, once the strict check has
  passed: unless \<^verbatim>\<open>ignoreDefaults\<close> is set, the resolved value of a key is the clone of
  the field's default when the field has a default (any value but undefined) and the
  key is absent from the value (undefined), and what the value holds otherwise; an
  explicit null stays. If the clone of a default that is to be filled in is an error,
  the result is the \<^verbatim>\<open>badSchema\<close> error. Otherwise, unless \<^verbatim>\<open>ignoreRequired\<close> is set,
  the required sweep runs on the resolved values: the first field, in enumeration
  order, that is marked required and whose resolved value is undefined or null fails
  with \<^verbatim>\<open>missingParam\<close> naming its key; a required field filled by a default passes
  the sweep unless the clone of its default is null or undefined. With no such field
  the check goes on to the descent, from a value that holds the resolved values.
  Each of the two options switches off its own step only.
\<close>

theorem checkobject_defaults_required:
  fixes h :: host and v schema options :: jsval
  defines "flds \<equiv> resolveFields schema"
  defines "filled \<equiv> \<lambda>k.
             \<not> truthy (getProp options ''ignoreDefaults'')
             \<and> k \<in> set (keys flds) \<and> tipe (getProp (getProp flds k) ''default'') \<noteq> ''undefined''
             \<and> tipe (getProp v k) = ''undefined''"
  defines "resolved \<equiv> \<lambda>k. if filled k then clone h (getProp (getProp flds k) ''default'') else getProp v k"
  defines "unclonable \<equiv> \<exists>k\<in>set (keys flds).
             filled k \<and> tipe (clone h (getProp (getProp flds k) ''default'')) = ''error''"
  defines "missing \<equiv>
             if truthy (getProp options ''ignoreRequired'') then None
             else find (\<lambda>k. truthy (getProp (getProp flds k) ''required'') \<and> nullish (resolved k))
                       (keys flds)"
  assumes "tipe schema = ''object''" and "tipe v = ''object''"
    and "truthy (getProp options ''strict'') \<longrightarrow> (\<forall>k\<in>set (keys v). truthy (getProp flds k))"
    and "\<not> truthy (getProp options ''ignoreDefaults'') \<or> \<not> truthy (getProp options ''ignoreRequired'')
         \<longrightarrow> (\<forall>k\<in>set (keys flds). \<not> nullish (getProp flds k))"
  shows "(unclonable \<longrightarrow>
            checkobject h v schema options =
              Normal (fail h (VStr ''badSchema'') (VStr ''Invalid default. Could not serialize as JSON.''),
                      options))
       \<and> (\<not> unclonable \<longrightarrow> (\<forall>k. missing = Some k \<longrightarrow>
            checkobject h v schema options = Normal (fail h (VStr ''missingParam'') (VStr k), options)))
       \<and> (\<not> unclonable \<longrightarrow> missing = None \<longrightarrow>
            (\<exists>v'. tipe v' = ''object'' \<and> (\<forall>k. getProp v' k = resolved k)
               \<and> checkobject h v schema options = checkobject_descend h (keys v') flds v' options))"
proof -
  let ?D = "if \<not> truthy (getProp options ''ignoreDefaults'')
            then checkobject_defaults h (keys flds) flds v else Next v"
  let ?R = "\<lambda>v1. if \<not> truthy (getProp options ''ignoreRequired'')
            then checkobject_required h (keys flds) flds v1 else Next ()"
  have s: "(if truthy (getProp options ''strict'') then checkobject_strict h (keys v) flds else Next ())
           = Next ()"
    using assms(8) by (simp add: checkobject_strict_passes)
  have unfold: "checkobject h v schema options =
      (case ?D of
         Throw x \<Rightarrow> Abrupt x
       | Return e \<Rightarrow> Normal (e, options)
       | Next v1 \<Rightarrow>
          (case ?R v1 of
             Throw x \<Rightarrow> Abrupt x
           | Return e \<Rightarrow> Normal (e, options)
           | Next u \<Rightarrow> checkobject_descend h (keys v1) flds v1 options))"
    using assms(6) s unfolding flds_def
    by (subst checkobject.simps) (simp only: Let_def flow.case simp_thms if_False)
  have dres: "if unclonable
      then ?D = Return (fail h (VStr ''badSchema'') (VStr ''Invalid default. Could not serialize as JSON.''))
      else \<exists>v'. ?D = Next v' \<and> tipe v' = ''object'' \<and> (\<forall>k. getProp v' k = resolved k)"
  proof (cases "truthy (getProp options ''ignoreDefaults'')")
    case True
    then show ?thesis
      using assms(7) by (simp add: unclonable_def resolved_def filled_def)
  next
    case False
    with assms(9) have nn: "\<forall>k\<in>set (keys flds). \<not> nullish (getProp flds k)" by simp
    from checkobject_defaults_result [OF nn assms(7), of h] False show ?thesis
      by (simp add: unclonable_def resolved_def filled_def cong: conj_cong)
  qed
  have rres: "?R v' =
       (case missing of None \<Rightarrow> Next () | Some k \<Rightarrow> Return (fail h (VStr ''missingParam'') (VStr k)))"
    if g': "\<forall>k. getProp v' k = resolved k" for v'
  proof (cases "truthy (getProp options ''ignoreRequired'')")
    case True
    then show ?thesis by (simp add: missing_def)
  next
    case False
    with assms(9) have nn: "\<forall>k\<in>set (keys flds). \<not> nullish (getProp flds k)" by simp
    from checkobject_required_find [OF nn, of h v'] g' False show ?thesis
      by (simp add: missing_def)
  qed
  have a: "checkobject h v schema options =
              Normal (fail h (VStr ''badSchema'') (VStr ''Invalid default. Could not serialize as JSON.''),
                      options)" if unclonable
    using dres that unfolding unfold by simp
  {
    assume nu: "\<not> unclonable"
    with dres obtain v' where v': "?D = Next v'"
      and t': "tipe v' = ''object''" and g': "\<forall>k. getProp v' k = resolved k"
      by auto
    note r = rres [OF g']
    have "\<forall>k. missing = Some k \<longrightarrow>
            checkobject h v schema options = Normal (fail h (VStr ''missingParam'') (VStr k), options)"
      unfolding unfold v' by (simp add: r)
    moreover have "missing = None \<longrightarrow>
            (\<exists>v'. tipe v' = ''object'' \<and> (\<forall>k. getProp v' k = resolved k)
               \<and> checkobject h v schema options = checkobject_descend h (keys v') flds v' options)"
      using t' g' unfolding unfold v' by (auto simp: r)
    ultimately have "(\<forall>k. missing = Some k \<longrightarrow>
            checkobject h v schema options = Normal (fail h (VStr ''missingParam'') (VStr k), options))
        \<and> (missing = None \<longrightarrow>
            (\<exists>v'. tipe v' = ''object'' \<and> (\<forall>k. getProp v' k = resolved k)
               \<and> checkobject h v schema options = checkobject_descend h (keys v') flds v' options))"
      by blast
  }
  with a show ?thesis by blast
qed

text \<open>
  The value \<^verbatim>\<open>{b: null}\<close> against the fields \<^verbatim>\<open>a\<close> (default 5, required),
  \<^verbatim>\<open>b\<close> (default 1) and \<^verbatim>\<open>c\<close> (required): \<^verbatim>\<open>c\<close> is missing. Without the field
  \<^verbatim>\<open>c\<close> the check passes, with \<^verbatim>\<open>a\<close> filled in and \<^verbatim>\<open>b\<close> left null. With
  \<^verbatim>\<open>ignoreRequired\<close> set, \<^verbatim>\<open>a\<close> is still filled in and \<^verbatim>\<open>c\<close> is not missed; with
  \<^verbatim>\<open>ignoreDefaults\<close> set, \<^verbatim>\<open>a\<close> is not filled in and is missed. And a host whose
  JSON throws, as it does for a cyclic default.
\<close>

theorem checkobject_defaults_required_witness:
  "checkobject (js_host noValidators) (VObj [(''b'', VNull)])
     (VObj [(''a'', VObj [(''default'', VNum (Fin 5)), (''required'', VBool True)]),
            (''b'', VObj [(''default'', VNum (Fin 1))]),
            (''c'', VObj [(''required'', VBool True)])]) defaultOptions
     = Normal (VErr [(''message'', VStr ''Missing Required Parameter: c''), (''code'', VStr ''missingParam'')],
               defaultOptions) \<and>
   (\<exists>v'. tipe v' = ''object'' \<and> getProp v' ''a'' = VNum (Fin 5) \<and> getProp v' ''b'' = VNull \<and>
      checkobject (js_host noValidators) (VObj [(''b'', VNull)])
        (VObj [(''a'', VObj [(''default'', VNum (Fin 5)), (''required'', VBool True)]),
               (''b'', VObj [(''default'', VNum (Fin 1))])]) defaultOptions
      = checkobject_descend (js_host noValidators) (keys v')
          (VObj [(''a'', VObj [(''default'', VNum (Fin 5)), (''required'', VBool True)]),
                 (''b'', VObj [(''default'', VNum (Fin 1))])]) v' defaultOptions) \<and>
   checkobject (js_host noValidators) (VObj [(''b'', VNull)])
     (VObj [(''a'', VObj [(''default'', VNum (Fin 5)), (''required'', VBool True)]),
            (''b'', VObj [(''default'', VNum (Fin 1))])]) defaultOptions
     = Normal (VObj [(''b'', VNull), (''a'', VNum (Fin 5))], setProp defaultOptions ''key'' (VStr ''a'')) \<and>
   checkobject ((js_host noValidators)\<lparr>jsonRoundTrip := \<lambda>v. Abrupt (VErr [(''message'', VStr ''cyclic'')])\<rparr>)
     (VObj []) (VObj [(''a'', VObj [(''default'', VObj [(''x'', VNum (Fin 1))])])]) defaultOptions
     = Normal (VErr [(''message'', VStr ''Invalid Schema: Invalid default. Could not serialize as JSON.''),
                     (''code'', VStr ''badSchema'')], defaultOptions) \<and>
   (\<exists>v'. tipe v' = ''object'' \<and> getProp v' ''a'' = VNum (Fin 5) \<and> getProp v' ''c'' = VUndefined \<and>
      checkobject (js_host noValidators) (VObj [(''b'', VNull)])
        (VObj [(''a'', VObj [(''default'', VNum (Fin 5)), (''required'', VBool True)]),
               (''b'', VObj [(''default'', VNum (Fin 1))]),
               (''c'', VObj [(''required'', VBool True)])])
        (VObj [(''ignoreRequired'', VBool True)])
      = checkobject_descend (js_host noValidators) (keys v')
          (VObj [(''a'', VObj [(''default'', VNum (Fin 5)), (''required'', VBool True)]),
                 (''b'', VObj [(''default'', VNum (Fin 1))]),
                 (''c'', VObj [(''required'', VBool True)])]) v'
          (VObj [(''ignoreRequired'', VBool True)])) \<and>
   checkobject (js_host noValidators) (VObj [(''b'', VNull)])
     (VObj [(''a'', VObj [(''default'', VNum (Fin 5)), (''required'', VBool True)]),
            (''b'', VObj [(''default'', VNum (Fin 1))])])
     (VObj [(''ignoreDefaults'', VBool True)])
     = Normal (VErr [(''message'', VStr ''Missing Required Parameter: a''), (''code'', VStr ''missingParam'')],
               VObj [(''ignoreDefaults'', VBool True)])"
proof -
  let ?H = "js_host noValidators"
  let ?J = "(js_host noValidators)\<lparr>jsonRoundTrip := \<lambda>v. Abrupt (VErr [(''message'', VStr ''cyclic'')])\<rparr>"
  let ?V = "VObj [(''b'', VNull)]"
  let ?S1 = "VObj [(''a'', VObj [(''default'', VNum (Fin 5)), (''required'', VBool True)]),
                   (''b'', VObj [(''default'', VNum (Fin 1))]),
                   (''c'', VObj [(''required'', VBool True)])]"
  let ?S2 = "VObj [(''a'', VObj [(''default'', VNum (Fin 5)), (''required'', VBool True)]),
                   (''b'', VObj [(''default'', VNum (Fin 1))])]"
  let ?S3 = "VObj [(''a'', VObj [(''default'', VObj [(''x'', VNum (Fin 1))])])]"
  let ?OR = "VObj [(''ignoreRequired'', VBool True)]"
  let ?OD = "VObj [(''ignoreDefaults'', VBool True)]"
  let ?filled = "\<lambda>ops v schema k.
      \<not> truthy (getProp ops ''ignoreDefaults'')
      \<and> k \<in> set (keys (resolveFields schema))
      \<and> tipe (getProp (getProp (resolveFields schema) k) ''default'') \<noteq> ''undefined''
      \<and> tipe (getProp v k) = ''undefined''"
  let ?resolved = "\<lambda>h ops v schema k.
      if ?filled ops v schema k
      then clone h (getProp (getProp (resolveFields schema) k) ''default'') else getProp v k"
  let ?unclonable = "\<lambda>h ops v schema. \<exists>k\<in>set (keys (resolveFields schema)).
      ?filled ops v schema k
        \<and> tipe (clone h (getProp (getProp (resolveFields schema) k) ''default'')) = ''error''"
  let ?missing = "\<lambda>h ops v schema.
      if truthy (getProp ops ''ignoreRequired'') then None
      else find (\<lambda>k. truthy (getProp (getProp (resolveFields schema) k) ''required'')
                \<and> nullish (?resolved h ops v schema k)) (keys (resolveFields schema))"
  have t: "tipe ?S1 = ''object''" "tipe ?S2 = ''object''" "tipe ?S3 = ''object''"
      "tipe ?V = ''object''" "tipe (VObj []) = ''object''"
    by simp_all
  have st: "truthy (getProp defaultOptions ''strict'') \<longrightarrow>
             (\<forall>k\<in>set (keys v). truthy (getProp (resolveFields s) k))"
      "truthy (getProp ?OR ''strict'') \<longrightarrow> (\<forall>k\<in>set (keys v). truthy (getProp (resolveFields s) k))"
      "truthy (getProp ?OD ''strict'') \<longrightarrow> (\<forall>k\<in>set (keys v). truthy (getProp (resolveFields s) k))"
    for v s
    by (simp_all add: defaultOptions_def getProp_def)
  have n: "\<forall>k\<in>set (keys (resolveFields ?S1)). \<not> nullish (getProp (resolveFields ?S1) k)"
      "\<forall>k\<in>set (keys (resolveFields ?S2)). \<not> nullish (getProp (resolveFields ?S2) k)"
      "\<forall>k\<in>set (keys (resolveFields ?S3)). \<not> nullish (getProp (resolveFields ?S3) k)"
    by code_simp+
  have u: "\<not> ?unclonable ?H defaultOptions ?V ?S1" "\<not> ?unclonable ?H defaultOptions ?V ?S2"
      "?unclonable ?J defaultOptions (VObj []) ?S3"
      "\<not> ?unclonable ?H ?OR ?V ?S1" "\<not> ?unclonable ?H ?OD ?V ?S2"
    by code_simp+
  have m: "?missing ?H defaultOptions ?V ?S1 = Some ''c''" "?missing ?H defaultOptions ?V ?S2 = None"
      "?missing ?H ?OR ?V ?S1 = None" "?missing ?H ?OD ?V ?S2 = Some ''a''"
    by code_simp+
  have f: "fail ?H (VStr ''missingParam'') (VStr ''c'')
             = VErr [(''message'', VStr ''Missing Required Parameter: c''), (''code'', VStr ''missingParam'')]"
      "fail ?H (VStr ''missingParam'') (VStr ''a'')
             = VErr [(''message'', VStr ''Missing Required Parameter: a''), (''code'', VStr ''missingParam'')]"
      "fail ?J (VStr ''badSchema'') (VStr ''Invalid default. Could not serialize as JSON.'')
             = VErr [(''message'', VStr ''Invalid Schema: Invalid default. Could not serialize as JSON.''),
                     (''code'', VStr ''badSchema'')]"
    by code_simp+
  have r: "?resolved ?H defaultOptions ?V ?S2 ''a'' = VNum (Fin 5)"
      "?resolved ?H defaultOptions ?V ?S2 ''b'' = VNull"
      "resolveFields ?S2 = ?S2"
      "?resolved ?H ?OR ?V ?S1 ''a'' = VNum (Fin 5)"
      "?resolved ?H ?OR ?V ?S1 ''c'' = VUndefined"
      "resolveFields ?S1 = ?S1"
    by code_simp+
  from checkobject_defaults_required [OF t(1) t(4) st(1), where h = ?H] n(1) u(1) m(1)
  have "checkobject ?H ?V ?S1 defaultOptions
          = Normal (fail ?H (VStr ''missingParam'') (VStr ''c''), defaultOptions)"
    by blast
  then have c1: "checkobject ?H ?V ?S1 defaultOptions
     = Normal (VErr [(''message'', VStr ''Missing Required Parameter: c''), (''code'', VStr ''missingParam'')],
               defaultOptions)"
    by (simp only: f)
  from checkobject_defaults_required [OF t(2) t(4) st(1), where h = ?H] n(2) u(2) m(2)
  obtain v' where v': "tipe v' = ''object''" "\<forall>k. getProp v' k = ?resolved ?H defaultOptions ?V ?S2 k"
      "checkobject ?H ?V ?S2 defaultOptions
         = checkobject_descend ?H (keys v') (resolveFields ?S2) v' defaultOptions"
    by blast
  from v'(2) r(1,2) have g: "getProp v' ''a'' = VNum (Fin 5)" "getProp v' ''b'' = VNull"
    by simp_all
  from v'(1,3) g have c2: "\<exists>v'. tipe v' = ''object'' \<and> getProp v' ''a'' = VNum (Fin 5) \<and> getProp v' ''b'' = VNull \<and>
      checkobject ?H ?V ?S2 defaultOptions = checkobject_descend ?H (keys v') ?S2 v' defaultOptions"
    unfolding r(3) by blast
  have c3: "checkobject ?H ?V ?S2 defaultOptions
     = Normal (VObj [(''b'', VNull), (''a'', VNum (Fin 5))], setProp defaultOptions ''key'' (VStr ''a''))"
    by code_simp
  from checkobject_defaults_required [OF t(3) t(5) st(1), where h = ?J] n(3) u(3)
  have "checkobject ?J (VObj []) ?S3 defaultOptions
     = Normal (fail ?J (VStr ''badSchema'') (VStr ''Invalid default. Could not serialize as JSON.''),
               defaultOptions)"
    by blast
  then have c4: "checkobject ?J (VObj []) ?S3 defaultOptions
     = Normal (VErr [(''message'', VStr ''Invalid Schema: Invalid default. Could not serialize as JSON.''),
                     (''code'', VStr ''badSchema'')], defaultOptions)"
    by (simp only: f)
  from checkobject_defaults_required [OF t(1) t(4) st(2), where h = ?H] n(1) u(4) m(3)
  obtain w' where w': "tipe w' = ''object''" "\<forall>k. getProp w' k = ?resolved ?H ?OR ?V ?S1 k"
      "checkobject ?H ?V ?S1 ?OR = checkobject_descend ?H (keys w') (resolveFields ?S1) w' ?OR"
    by blast
  from w'(2) r(4,5) have gw: "getProp w' ''a'' = VNum (Fin 5)" "getProp w' ''c'' = VUndefined"
    by simp_all
  from w'(1,3) gw have c5: "\<exists>v'. tipe v' = ''object'' \<and> getProp v' ''a'' = VNum (Fin 5)
      \<and> getProp v' ''c'' = VUndefined \<and>
      checkobject ?H ?V ?S1 ?OR = checkobject_descend ?H (keys v') ?S1 v' ?OR"
    unfolding r(6) by blast
  from checkobject_defaults_required [OF t(2) t(4) st(3), where h = ?H] n(2) u(5) m(4)
  have "checkobject ?H ?V ?S2 ?OD = Normal (fail ?H (VStr ''missingParam'') (VStr ''a''), ?OD)"
    by blast
  then have c6: "checkobject ?H ?V ?S2 ?OD
     = Normal (VErr [(''message'', VStr ''Missing Required Parameter: a''), (''code'', VStr ''missingParam'')],
               ?OD)"
    by (simp only: f)
  from c1 c2 c3 c4 c5 c6 show ?thesis by (intro conjI)
qed

text \<open>
  The claim as stated fails. A field with the default \<^verbatim>\<open>null\<close> and
  \<^verbatim>\<open>required: true\<close> is filled with null and then fails the required sweep. And in
  \<^verbatim>\<open>src/chk.js\<close> a default that cannot be cloned gives no \<^verbatim>\<open>badSchema\<close> error:
  \<^verbatim>\<open>clone\<close> returns null there and the check passes.
\<close>

theorem checkobject_defaults_required_counterexample:
  "chk (js_host noValidators) (VObj [])
       (VObj [(''a'', VObj [(''default'', VNull), (''required'', VBool True)])]) VUndefined
     = Normal (Failure (VErr [(''message'', VStr ''Missing Required Parameter: a''),
                              (''code'', VStr ''missingParam'')])) \<and>
   chk_chkjs ((js_host noValidators)\<lparr>jsonRoundTrip := \<lambda>v. Abrupt (VErr [(''message'', VStr ''cyclic'')])\<rparr>)
       (VObj []) (VObj [(''a'', VObj [(''default'', VObj [(''x'', VNum (Fin 1))])])]) VUndefined
     = Normal VNull"
  by code_simp

subsection \<open>Defaults that are arrays\<close>

text \<open>
  Claim C7 does not hold of \<^verbatim>\<open>part_000\<close>. Its \<^verbatim>\<open>clone\<close> returns whatever is not
  an object as it is, for every host, so without consulting JSON: a default that is an
  array is not copied, and the field of the value that receives it is the array of the
  schema itself. The check of that field then works on the schema's own elements: for
  the default \<^verbatim>\<open>[{}]\<close> and an element schema with a field \<^verbatim>\<open>n\<close> of default 1, the
  element ends as \<^verbatim>\<open>{n: 1}\<close>. The \<^verbatim>\<open>clone\<close> of \<^verbatim>\<open>src/chk.js\<close> copies the array.
\<close>

theorem clone_returns_arrays_uncopied:
  "clone h (VArr xs ps) = VArr xs ps \<and>
   clone_chkjs (js_host noValidators) (VArr [VFun 0 []] []) = VArr [VNull] [] \<and>
   chk (js_host noValidators) (VObj [])
     (VObj [(''list'', VObj [(''type'', VStr ''array''), (''default'', VArr [VObj []] []),
                             (''value'', VObj [(''type'', VStr ''object''),
                                               (''value'', VObj [(''n'', VObj [(''default'', VNum (Fin 1))])])])])])
     VUndefined
   = Normal (Success (VObj [(''list'', VArr [VObj [(''n'', VNum (Fin 1))]] [])]))"
proof -
  have "clone h (VArr xs ps) = VArr xs ps"
    by (simp add: clone_def)
  moreover have "clone_chkjs (js_host noValidators) (VArr [VFun 0 []] []) = VArr [VNull] []"
    by code_simp
  moreover have "chk (js_host noValidators) (VObj [])
     (VObj [(''list'', VObj [(''type'', VStr ''array''), (''default'', VArr [VObj []] []),
                             (''value'', VObj [(''type'', VStr ''object''),
                                               (''value'', VObj [(''n'', VObj [(''default'', VNum (Fin 1))])])])])])
     VUndefined
   = Normal (Success (VObj [(''list'', VArr [VObj [(''n'', VNum (Fin 1))]] [])]))"
    by code_simp
  ultimately show ?thesis by blast
qed

end
